theory Spec2Isabelle
  imports Main "HOL-Library.Sublist"
begin

section \<open>Common vocabulary\<close>

text \<open>
  The Python sources raise exceptions and call \<open>exit\<close>; every such outcome is a value of
  \<open>error\<close>, and a fallible function returns \<open>error + 'a\<close> with \<open>Inl\<close> for the failure.
\<close>

datatype error =
    AssertionError string
  | KeyError string
  | IndexError
  | TypeError
  | ValueError
  | IOError string
  | ResponseFileNotFound string
  | ExitWithError string
  | SystemExit nat
  | Exception string

text \<open>Python truthiness of a value that is \<open>None\<close> or a string.\<close>

definition truthy :: "string option \<Rightarrow> bool" where
  "truthy v = (case v of None \<Rightarrow> False | Some s \<Rightarrow> s \<noteq> [])"

text \<open>\<open>str(v)\<close> as the \<open>%s\<close> directive applies it to a value that is \<open>None\<close> or a string.\<close>

definition py_str :: "string option \<Rightarrow> string" where
  "py_str v = (case v of None \<Rightarrow> ''None'' | Some s \<Rightarrow> s)"

text \<open>
  \<open>template % args\<close> for templates whose only directive is \<open>%s\<close>: the directives are
  replaced from left to right by the arguments.
\<close>

fun fmt :: "string \<Rightarrow> string list \<Rightarrow> string" where
  "fmt [] as = []"
| "fmt (c # cs) as =
     (if c = CHR ''%'' then
        (case cs of
           [] \<Rightarrow> [c]
         | d # ds \<Rightarrow>
             (case as of
                [] \<Rightarrow> c # fmt cs as
              | a # as' \<Rightarrow> if d = CHR ''s'' then a @ fmt ds as' else c # fmt cs as))
      else c # fmt cs as)"

text \<open>\<open>sub in s\<close> on strings.\<close>

fun contains :: "string \<Rightarrow> string \<Rightarrow> bool" where
  "contains [] sub = (sub = [])"
| "contains (c # cs) sub = (prefix sub (c # cs) \<or> contains cs sub)"

text \<open>\<open>s.startswith(p)\<close> and \<open>s.endswith(e)\<close>.\<close>

definition startswith :: "string \<Rightarrow> string \<Rightarrow> bool" where
  "startswith s p = prefix p s"

definition endswith :: "string \<Rightarrow> string \<Rightarrow> bool" where
  "endswith s e = suffix e s"

text \<open>\<open>s.split(sep)\<close> for a separator of one character.\<close>

fun split_on :: "char \<Rightarrow> string \<Rightarrow> string list" where
  "split_on sep [] = [[]]"
| "split_on sep (c # cs) =
     (if c = sep then [] # split_on sep cs
      else (case split_on sep cs of [] \<Rightarrow> [[c]] | w # ws \<Rightarrow> (c # w) # ws))"

text \<open>\<open>os.path.basename\<close> on POSIX paths: what follows the last slash.\<close>

definition basename :: "string \<Rightarrow> string" where
  "basename p = rev (takeWhile (\<lambda>c. c \<noteq> CHR ''/'') (rev p))"

text \<open>\<open>sep.join(xs)\<close>.\<close>

fun join :: "string \<Rightarrow> string list \<Rightarrow> string" where
  "join sep [] = []"
| "join sep [x] = x"
| "join sep (x # y # ys) = x @ sep @ join sep (y # ys)"

text \<open>
  The fields of the global \<open>shared.Settings\<close> object that the modelled code reads.
  Integer settings that the code compares or tests for truth are integers here.
\<close>

record Settings =
  ASM_JS :: int
  PRECISE_F32 :: int
  CYBERDWARF :: bool
  WASM_BACKEND :: bool
  MEM_INIT_METHOD :: int
  BINARYEN :: bool
  BINARYEN_METHOD :: string
  BINARYEN_ASYNC_COMPILATION :: bool
  PROXY_TO_WORKER_FILENAME :: string
  EMTERPRETIFY_FILE :: string
  WASM_OBJECT_FILES :: bool
  WASM :: bool
  USE_PTHREADS :: int
  LEGACY_GL_EMULATION :: bool
  USE_WEBGL2 :: bool
  DISABLE_EXCEPTION_CATCHING :: bool
  MALLOC :: string
  DEBUG_LEVEL :: int
  SUPPORT_ERRNO :: bool
  EMSCRIPTEN_TRACING :: bool
  EXPORTED_FUNCTIONS :: "string list"
  MAIN_MODULE :: bool
  SIDE_MODULE :: bool

text \<open>A settings value for examples: an asm.js build at \<open>-O0\<close> with the default allocator.\<close>

definition example_settings :: Settings where
  "example_settings =
     \<lparr>ASM_JS = 2, PRECISE_F32 = 0, CYBERDWARF = False, WASM_BACKEND = False, MEM_INIT_METHOD = 0,
      BINARYEN = False, BINARYEN_METHOD = ''native-wasm'', BINARYEN_ASYNC_COMPILATION = True,
      PROXY_TO_WORKER_FILENAME = [], EMTERPRETIFY_FILE = [], WASM_OBJECT_FILES = False, WASM = False,
      USE_PTHREADS = 0, LEGACY_GL_EMULATION = False, USE_WEBGL2 = False,
      DISABLE_EXCEPTION_CATCHING = False, MALLOC = ''dlmalloc'', DEBUG_LEVEL = 0,
      SUPPORT_ERRNO = True, EMSCRIPTEN_TRACING = False, EXPORTED_FUNCTIONS = [''_main''],
      MAIN_MODULE = False, SIDE_MODULE = False\<rparr>"


section \<open>The script source of the HTML harness (emcc.py, \<open>ScriptSource\<close> and \<open>generate_html\<close>)\<close>

record ScriptSource =
  src :: "string option"
  inline :: "string option"

definition ScriptSource_init :: ScriptSource where
  "ScriptSource_init = \<lparr>src = None, inline = None\<rparr>"

definition un_src_template :: string where
  \<open>un_src_template =
     ''\<newline>          var script = document.createElement('script');\<newline>          script.src = "%s";\<newline>          document.body.appendChild(script);\<newline>''\<close>

definition un_src :: "ScriptSource \<Rightarrow> ScriptSource" where
  "un_src self =
     (case src self of
        None \<Rightarrow> self
      | Some s \<Rightarrow> self\<lparr>inline := Some (fmt un_src_template [s]), src := None\<rparr>)"

definition replacement :: "(string \<Rightarrow> string) \<Rightarrow> ScriptSource \<Rightarrow> error + string" where
  \<open>replacement quote self =
     (if \<not> ((truthy (src self) \<or> truthy (inline self)) \<and> \<not> (truthy (src self) \<and> truthy (inline self)))
      then Inl (AssertionError [])
      else if truthy (src self)
      then Inr (fmt ''<script async type="text/javascript" src="%s"></script>'' [quote (py_str (src self))])
      else Inr (fmt ''<script>\<newline>%s\<newline></script>'' [py_str (inline self)]))\<close>

text \<open>The options \<open>generate_html\<close> reads from \<open>EmccOptions\<close>.\<close>

record EmccOptions =
  proxy_to_worker :: bool
  memory_init_file :: bool
  separate_asm :: bool

definition proxy_template_head :: string where
  "proxy_template_head =
     ''\<newline>  if ((',' + window.location.search.substr(1) + ',').indexOf(',noProxy,') < 0) {\<newline>    console.log('running code in a web worker');\<newline>''"

definition proxy_template_tail :: string where
  \<open>proxy_template_tail =
     ''\<newline>  } else {\<newline>    // note: no support for code mods (PRECISE_F32==2)\<newline>    console.log('running code on the main thread');\<newline>    var script = document.createElement('script');\<newline>    script.src = "%s.js";\<newline>    document.body.appendChild(script);\<newline>  }\<newline>''\<close>

definition emterpret_template :: string where
  "emterpret_template =
     ''\<newline>          var emterpretXHR = new XMLHttpRequest();\<newline>          emterpretXHR.open('GET', '%s', true);\<newline>          emterpretXHR.responseType = 'arraybuffer';\<newline>          emterpretXHR.onload = function() {\<newline>            Module.emterpreterFile = emterpretXHR.response;\<newline>%s\<newline>          };\<newline>          emterpretXHR.send(null);\<newline>''"

definition meminit_template :: string where
  "meminit_template =
     ''\<newline>          (function() {\<newline>            var memoryInitializer = '%s';\<newline>            if (typeof Module['locateFile'] === 'function') {\<newline>              memoryInitializer = Module['locateFile'](memoryInitializer);\<newline>            } else if (Module['memoryInitializerPrefixURL']) {\<newline>              memoryInitializer = Module['memoryInitializerPrefixURL'] + memoryInitializer;\<newline>            }\<newline>            var meminitXHR = Module['memoryInitializerRequest'] = new XMLHttpRequest();\<newline>            meminitXHR.open('GET', memoryInitializer, true);\<newline>            meminitXHR.responseType = 'arraybuffer';\<newline>            meminitXHR.send(null);\<newline>          })();\<newline>''"

definition asm_load_template :: string where
  \<open>asm_load_template =
     ''\<newline>    var script = document.createElement('script');\<newline>    script.src = "%s";\<newline>    script.onload = function() {\<newline>      setTimeout(function() {\<newline>        %s\<newline>      }, 1); // delaying even 1ms is enough to allow compilation memory to be reclaimed\<newline>    };\<newline>    document.body.appendChild(script);\<newline>''\<close>

definition asm_mods_template :: string where
  "asm_mods_template =
     ''\<newline>    var codeXHR = new XMLHttpRequest();\<newline>    codeXHR.open('GET', '%s', true);\<newline>    codeXHR.onload = function() {\<newline>      var code = codeXHR.responseText;\<newline>      %s\<newline>      var blob = new Blob([code], { type: 'text/javascript' });\<newline>      codeXHR = null;\<newline>      var src = URL.createObjectURL(blob);\<newline>      var script = document.createElement('script');\<newline>      script.src = src;\<newline>      script.onload = function() {\<newline>        setTimeout(function() {\<newline>          %s\<newline>        }, 1); // delaying even 1ms is enough to allow compilation memory to be reclaimed\<newline>        URL.revokeObjectURL(script.src);\<newline>      };\<newline>      document.body.appendChild(script);\<newline>    };\<newline>    codeXHR.send(null);\<newline>''"

definition wasm_template :: string where
  "wasm_template =
     ''\<newline>          var wasmXHR = new XMLHttpRequest();\<newline>          wasmXHR.open('GET', '%s', true);\<newline>          wasmXHR.responseType = 'arraybuffer';\<newline>          wasmXHR.onload = function() {\<newline>            Module.wasmBinary = wasmXHR.response;\<newline>%s\<newline>          };\<newline>          wasmXHR.send(null);\<newline>''"

text \<open>
  The first step of \<open>generate_html\<close>: the worker proxy sets the inline text, the normal path
  sets the reference. \<open>worker_js\<close> is the text \<open>worker_js_script\<close> builds from files.
\<close>

definition initial_script ::
  "EmccOptions \<Rightarrow> Settings \<Rightarrow> (string \<Rightarrow> string) \<Rightarrow> string \<Rightarrow> string \<Rightarrow> ScriptSource" where
  "initial_script options settings worker_js_script js_target target_basename =
     (if proxy_to_worker options then
        (let proxy_worker_filename =
               (if PROXY_TO_WORKER_FILENAME settings \<noteq> [] then PROXY_TO_WORKER_FILENAME settings
                else target_basename)
         in ScriptSource_init\<lparr>inline :=
              Some (proxy_template_head @ worker_js_script proxy_worker_filename
                    @ fmt proxy_template_tail [proxy_worker_filename])\<rparr>)
      else ScriptSource_init\<lparr>src := Some (basename js_target)\<rparr>)"

text \<open>The wrapping steps. Each calls \<open>un_src\<close> and then rewrites the inline text.\<close>

definition wrap_emterpreter :: "Settings \<Rightarrow> ScriptSource \<Rightarrow> ScriptSource" where
  "wrap_emterpreter settings script =
     (let script = un_src script
      in script\<lparr>inline := Some (fmt emterpret_template [EMTERPRETIFY_FILE settings, py_str (inline script)])\<rparr>)"

definition wrap_meminit :: "string option \<Rightarrow> ScriptSource \<Rightarrow> error + ScriptSource" where
  "wrap_meminit memfile script =
     (let script = un_src script
      in case memfile of
           None \<Rightarrow> Inl TypeError
         | Some m \<Rightarrow>
             (case inline script of
                None \<Rightarrow> Inl TypeError
              | Some i \<Rightarrow> Inr (script\<lparr>inline := Some (fmt meminit_template [basename m] @ i)\<rparr>)))"

definition wrap_separate_asm :: "string \<Rightarrow> string list \<Rightarrow> ScriptSource \<Rightarrow> ScriptSource" where
  "wrap_separate_asm asm_target asm_mods script =
     (let script = un_src script
      in if length asm_mods = 0
         then script\<lparr>inline := Some (fmt asm_load_template [basename asm_target, py_str (inline script)])\<rparr>
         else script\<lparr>inline :=
                Some (fmt asm_mods_template
                        [basename asm_target, join ''\<newline>'' asm_mods, py_str (inline script)])\<rparr>)"

definition wrap_wasm :: "string \<Rightarrow> ScriptSource \<Rightarrow> ScriptSource" where
  "wrap_wasm wasm_binary_target script =
     (let script = un_src script
      in script\<lparr>inline := Some (fmt wasm_template [basename wasm_binary_target, py_str (inline script)])\<rparr>)"

text \<open>
  The script value \<open>generate_html\<close> hands to \<open>replacement\<close>. \<open>shell\<close> is the text of the
  file \<open>options.shell_path\<close>, \<open>get_mods\<close> is the list
  \<open>client_mods.get_mods\<close> returns on the normal path.
\<close>

definition no_separate_asm :: "EmccOptions \<Rightarrow> Settings \<Rightarrow> bool" where
  "no_separate_asm options settings =
     (\<not> separate_asm options \<or> (BINARYEN settings \<and> \<not> contains (BINARYEN_METHOD settings) ''asmjs''))"

definition html_script ::
  "string \<Rightarrow> EmccOptions \<Rightarrow> Settings \<Rightarrow> (string \<Rightarrow> string) \<Rightarrow> string list \<Rightarrow>
   string \<Rightarrow> string \<Rightarrow> string \<Rightarrow> string \<Rightarrow> string option \<Rightarrow> error + ScriptSource" where
  "html_script shell options settings worker_js_script get_mods
               js_target target_basename asm_target wasm_binary_target memfile =
     (if \<not> contains shell ''{{{ SCRIPT }}}''
      then Inl (AssertionError ''HTML shell must contain  {{{ SCRIPT }}}'')
      else
        let script = initial_script options settings worker_js_script js_target target_basename;
            asm_mods = (if proxy_to_worker options then [] else get_mods);
            script = (if EMTERPRETIFY_FILE settings \<noteq> [] then wrap_emterpreter settings script else script)
        in case (if memory_init_file options then wrap_meminit memfile script else Inr script) of
             Inl e \<Rightarrow> Inl e
           | Inr script \<Rightarrow>
               (if no_separate_asm options settings \<and> length asm_mods \<noteq> 0
                then Inl (AssertionError ''no --separate-asm means no client code mods are possible'')
                else
                  let script =
                        (if no_separate_asm options settings then script
                         else wrap_separate_asm asm_target asm_mods script);
                      script =
                        (if BINARYEN settings \<and> \<not> BINARYEN_ASYNC_COMPILATION settings
                         then wrap_wasm wasm_binary_target script else script)
                  in Inr script))"

text \<open>
  \<open>shell.replace(old, new)\<close> for a non-empty \<open>old\<close>, and the document \<open>generate_html\<close>
  writes; \<open>convert_line_endings\<close> is the line-ending conversion of \<open>tools.line_endings\<close>.
\<close>

function str_replace :: "string \<Rightarrow> string \<Rightarrow> string \<Rightarrow> string" where
  "str_replace [] old new = []"
| "str_replace (c # cs) old new =
     (if old \<noteq> [] \<and> prefix old (c # cs)
      then new @ str_replace (drop (length old) (c # cs)) old new
      else c # str_replace cs old new)"
  by pat_completeness auto
termination
  by (relation "measure (\<lambda>(s, old, new). length s)") (auto simp: neq_Nil_conv)

definition generate_html ::
  "string \<Rightarrow> EmccOptions \<Rightarrow> Settings \<Rightarrow> (string \<Rightarrow> string) \<Rightarrow> string list \<Rightarrow> (string \<Rightarrow> string) \<Rightarrow>
   (string \<Rightarrow> string) \<Rightarrow> string \<Rightarrow> string \<Rightarrow> string \<Rightarrow> string \<Rightarrow> string option \<Rightarrow> error + string" where
  "generate_html shell options settings worker_js_script get_mods quote convert_line_endings
                 js_target target_basename asm_target wasm_binary_target memfile =
     (case html_script shell options settings worker_js_script get_mods
             js_target target_basename asm_target wasm_binary_target memfile of
        Inl e \<Rightarrow> Inl e
      | Inr script \<Rightarrow>
          (case replacement quote script of
             Inl e \<Rightarrow> Inl e
           | Inr r \<Rightarrow> Inr (convert_line_endings (str_replace shell ''{{{ SCRIPT }}}'' r))))"

text \<open>Exactly one of the two fields is set, in the sense \<open>replacement\<close> asserts.\<close>

definition exactly_one :: "ScriptSource \<Rightarrow> bool" where
  "exactly_one s = (truthy (src s) \<noteq> truthy (inline s))"


section \<open>The library dependency resolver (tools/system_libs.py, \<open>calculate\<close>)\<close>

text \<open>
  The symbols of one scanned file, as \<open>parallel_llvm_nm\<close> returns them, and a row of the
  table \<open>system_libs\<close>. The sets of the source are lists here, read through \<open>set\<close>; the
  field \<open>create\<close> holds the name of the builder function.
\<close>

record Symbols =
  defs :: "string list"
  undefs :: "string list"

record Library =
  shortname :: string
  suffix :: string
  create :: string
  symbols :: "string list"
  deps :: "string list"
  can_noexcept :: bool

text \<open>The symbol lists \<open>calculate\<close> reads from the files under \<open>system/lib\<close>.\<close>

record SymbolFiles =
  libc_symbols :: "string list"
  libcxx_symbols :: "string list"
  libcxxabi_symbols :: "string list"
  gl_symbols :: "string list"
  al_symbols :: "string list"
  compiler_rt_symbols :: "string list"
  libc_extras_symbols :: "string list"
  pthreads_symbols :: "string list"
  asmjs_pthreads_symbols :: "string list"
  stub_pthreads_symbols :: "string list"
  wasm_libc_symbols :: "string list"
  html5_symbols :: "string list"

text \<open>What \<open>calculate\<close> does outside the process: the symbol scan and the cache lookups.\<close>

datatype event = LlvmNm "string list" | CacheGet string

subsection \<open>\<open>malloc_decision\<close>\<close>

definition malloc_decision :: "Settings \<Rightarrow> error + (string \<times> string)" where
  "malloc_decision S =
     (if MALLOC S \<noteq> ''dlmalloc'' \<and> MALLOC S \<noteq> ''emmalloc''
      then Inl (Exception ''malloc must be one of emmalloc, dlmalloc, see settings.js'')
      else
        let base = MALLOC S;
            extra = (if DEBUG_LEVEL S \<ge> 3 then ''_debug'' else []);
            extra = extra @ (if \<not> SUPPORT_ERRNO S \<and> base \<noteq> ''emmalloc'' then ''_noerrno'' else [])
        in if USE_PTHREADS S \<noteq> 0 \<and> base \<noteq> ''dlmalloc''
           then Inl (ExitWithError ''only dlmalloc is possible when using pthreads'')
           else
             let extra = extra @ (if USE_PTHREADS S \<noteq> 0 then ''_threadsafe'' else [])
             in if EMSCRIPTEN_TRACING S \<and> base \<noteq> ''dlmalloc''
                then Inl (ExitWithError ''only dlmalloc is possible when using tracing'')
                else
                  let extra = extra @ (if EMSCRIPTEN_TRACING S then ''_tracing'' else []);
                      source = (if base = ''dlmalloc'' then ''dlmalloc.c'' else ''emmalloc.cpp'')
                  in Inr (source, ''lib'' @ base @ extra))"

definition malloc_name :: "Settings \<Rightarrow> error + string" where
  "malloc_name S = (case malloc_decision S of Inl e \<Rightarrow> Inl e | Inr d \<Rightarrow> Inr (snd d))"

subsection \<open>\<open>add_back_deps\<close>\<close>

text \<open>
  One run of the loop over \<open>deps_info.items()\<close>: for an identifier that is undefined and
  not yet added, its dependencies become undefined symbols and exported functions.
\<close>

fun add_back_deps_loop ::
  "(string \<times> string list) list \<Rightarrow> Symbols \<Rightarrow> string list \<Rightarrow> string list \<Rightarrow> bool \<Rightarrow>
   Symbols \<times> string list \<times> string list \<times> bool" where
  "add_back_deps_loop [] need added exports any = (need, added, exports, any)"
| "add_back_deps_loop ((ident, ds) # rest) need added exports any =
     (if ident \<in> set (undefs need) \<and> ident \<notin> set added
      then add_back_deps_loop rest (need\<lparr>undefs := undefs need @ ds\<rparr>) (ident # added)
             (exports @ map (\<lambda>dep. CHR ''_'' # dep) ds) True
      else add_back_deps_loop rest need added exports any)"

lemma add_back_deps_loop_added:
  "add_back_deps_loop items need added exports any = (need', added', exports', any') \<Longrightarrow>
   set added \<subseteq> set added' \<and> set added' \<subseteq> set added \<union> fst ` set items
   \<and> (any' \<and> \<not> any \<longrightarrow> (\<exists>k \<in> fst ` set items. k \<in> set added' \<and> k \<notin> set added))"
proof (induction items need added exports any rule: add_back_deps_loop.induct)
  case (1 need added exports any)
  then show ?case by simp
next
  case (2 ident ds rest need added exports any)
  show ?case
  proof (cases "ident \<in> set (undefs need) \<and> ident \<notin> set added")
    case True
    with 2 show ?thesis by (auto simp del: add_back_deps_loop.simps(2) simp add: add_back_deps_loop.simps(2) [of ident ds rest need added exports any])
  next
    case False
    with 2 show ?thesis by auto
  qed
qed

function add_back_deps ::
  "(string \<times> string list) list \<Rightarrow> Symbols \<Rightarrow> string list \<Rightarrow> string list \<Rightarrow>
   Symbols \<times> string list \<times> string list" where
  "add_back_deps deps_info need added exports =
     (case add_back_deps_loop deps_info need added exports False of
        (need', added', exports', any) \<Rightarrow>
          if any then add_back_deps deps_info need' added' exports'
          else (need', added', exports'))"
  by pat_completeness auto
termination
proof (relation "measure (\<lambda>(deps_info, need, added, exports). card (fst ` set deps_info - set added))")
  show "wf (measure (\<lambda>(deps_info, need, added, exports). card (fst ` set deps_info - set added)))"
    by simp
next
  fix deps_info :: "(string \<times> string list) list" and need added exports need' y added' z exports' any
  assume loop: "(need', y) = add_back_deps_loop deps_info need added exports False"
    and y: "(added', z) = y" and z: "(exports', any) = z" and any: "any"
  from loop y z have "add_back_deps_loop deps_info need added exports False = (need', added', exports', any)"
    by simp
  from add_back_deps_loop_added [OF this] any
  obtain k where k: "k \<in> fst ` set deps_info" "k \<in> set added'" "k \<notin> set added"
    and sub: "set added \<subseteq> set added'"
    by auto
  have "fst ` set deps_info - set added' \<subset> fst ` set deps_info - set added"
    using k sub by auto
  then have "card (fst ` set deps_info - set added') < card (fst ` set deps_info - set added)"
    by (intro psubset_card_mono) auto
  then show "((deps_info, need', added', exports'), (deps_info, need, added, exports))
      \<in> measure (\<lambda>(deps_info, need, added, exports). card (fst ` set deps_info - set added))"
    by simp
qed


subsection \<open>The table of system libraries\<close>

definition libc_name :: "Settings \<Rightarrow> string" where
  "libc_name S = (if USE_PTHREADS S \<noteq> 0 then ''libc-mt'' else ''libc'')"

definition libc_deps :: "Settings \<Rightarrow> string list" where
  "libc_deps S = [''libcompiler_rt''] @ (if WASM S then [''libc-wasm''] else [])"

definition ext :: "Settings \<Rightarrow> string" where
  "ext S = (if WASM_OBJECT_FILES S then ''a'' else ''bc'')"

definition gl_name :: "Settings \<Rightarrow> string" where
  "gl_name S =
     ''libgl'' @ (if USE_PTHREADS S \<noteq> 0 then ''-mt'' else [])
     @ (if LEGACY_GL_EMULATION S then ''-emu'' else [])
     @ (if USE_WEBGL2 S then ''-webgl2'' else [])"

definition always_include :: "Settings \<Rightarrow> string \<Rightarrow> string list" where
  "always_include S malloc =
     (if USE_PTHREADS S \<noteq> 0
      then [''libpthreads'', if \<not> WASM_BACKEND S then ''libpthreads_asmjs'' else ''libpthreads_wasm'']
      else [''libpthreads_stub''])
     @ [malloc]
     @ (if WASM_BACKEND S then [''libcompiler_rt''] else [])"

definition Library ::
  "string \<Rightarrow> string \<Rightarrow> string \<Rightarrow> string list \<Rightarrow> string list \<Rightarrow> bool \<Rightarrow> Library" where
  "Library n s c sy d ne =
     \<lparr>shortname = n, suffix = s, create = c, symbols = sy, deps = d, can_noexcept = ne\<rparr>"

definition system_libs :: "Settings \<Rightarrow> SymbolFiles \<Rightarrow> string \<Rightarrow> Library list" where
  "system_libs S F malloc =
     [Library ''libc++'' ''a'' ''create_libcxx'' (libcxx_symbols F) [''libc++abi''] True,
      Library ''libc++abi'' (ext S) ''create_libcxxabi'' (libcxxabi_symbols F) [libc_name S] False,
      Library ''libal'' (ext S) ''create_al'' (al_symbols F) [libc_name S] False,
      Library ''libhtml5'' (ext S) ''create_html5'' (html5_symbols F) [] False,
      Library ''libcompiler_rt'' ''a'' ''create_compiler_rt'' (compiler_rt_symbols F) [libc_name S] False,
      Library malloc (ext S) ''create_malloc'' [] [] False]
     @ [Library (gl_name S) (ext S) ''create_gl'' (gl_symbols F) [libc_name S] False]
     @ (if USE_PTHREADS S \<noteq> 0
        then [Library ''libpthreads'' (ext S) ''create_pthreads'' (pthreads_symbols F) [libc_name S] False]
             @ (if \<not> WASM_BACKEND S
                then [Library ''libpthreads_asmjs'' (ext S) ''create_pthreads_asmjs''
                        (asmjs_pthreads_symbols F) [libc_name S] False]
                else [Library ''libpthreads_wasm'' (ext S) ''create_pthreads_wasm'' [] [libc_name S] False])
        else [Library ''libpthreads_stub'' (ext S) ''create_pthreads_stub''
                (stub_pthreads_symbols F) [libc_name S] False])
     @ [Library (libc_name S) (ext S) ''create_libc'' (libc_symbols F) (libc_deps S) False]
     @ (if WASM S then [Library ''libc-wasm'' (ext S) ''create_wasm_libc'' (wasm_libc_symbols F) [] False]
        else [])
     @ [Library ''libc-extras'' (ext S) ''create_libc_extras'' (libc_extras_symbols F) [] False]"

text \<open>
  \<open>system_libs_map = {l.shortname: l for l in system_libs}\<close>: a later row with the same
  name replaces an earlier one.
\<close>

definition system_libs_map :: "Library list \<Rightarrow> string \<Rightarrow> Library option" where
  "system_libs_map libs name = find (\<lambda>l. shortname l = name) (rev libs)"

subsection \<open>\<open>add_library\<close>\<close>

text \<open>
  The variables of \<open>calculate\<close> that \<open>add_library\<close> and the loop over the table read, and
  the two they change. \<open>cache_get name\<close> is the path \<open>shared.Cache.get\<close> returns for the
  library file \<open>name\<close>.
\<close>

record resolver =
  shared_Settings :: Settings
  libs :: "Library list"
  force_include :: "string list"
  always :: "string list"
  only_forced :: bool
  symbolses :: "Symbols list"
  cache_get :: "string \<Rightarrow> string"

record link_state =
  already_included :: "string set"
  libs_to_link :: "(string \<times> bool) list"
  trace :: "event list"

definition maybe_noexcept :: "Settings \<Rightarrow> string \<Rightarrow> string" where
  "maybe_noexcept S name = (if DISABLE_EXCEPTION_CATCHING S then name @ ''_noexcept'' else name)"

definition include_library :: "resolver \<Rightarrow> Library \<Rightarrow> link_state \<Rightarrow> link_state" where
  "include_library R lib st =
     (let shortname' = (if can_noexcept lib then maybe_noexcept (shared_Settings R) (shortname lib)
                        else shortname lib);
          name = shortname' @ ''.'' @ suffix lib;
          libfile = cache_get R name;
          need_whole_archive = (shortname lib \<in> set (force_include R) \<and> suffix lib \<noteq> ''bc'')
      in st\<lparr>already_included := insert (shortname lib) (already_included st),
            libs_to_link := libs_to_link st @ [(libfile, need_whole_archive)],
            trace := trace st @ [CacheGet name]\<rparr>)"

function add_library :: "resolver \<Rightarrow> Library \<Rightarrow> link_state \<Rightarrow> error + link_state"
  and add_dependencies :: "resolver \<Rightarrow> string list \<Rightarrow> link_state \<Rightarrow> error + link_state" where
  "add_library R lib st =
     (if shortname lib \<in> already_included st then Inr st
      else add_dependencies R (deps lib) (include_library R lib st))"
| "add_dependencies R [] st = Inr st"
| "add_dependencies R (d # ds) st =
     (case system_libs_map (libs R) d of
        None \<Rightarrow> Inl (KeyError d)
      | Some l \<Rightarrow>
          (case add_library R l st of
             Inl e \<Rightarrow> Inl e
           | Inr st' \<Rightarrow> add_dependencies R ds st'))"
  by pat_completeness auto
lemma include_library_included [simp]:
  "already_included (include_library R lib st) = insert (shortname lib) (already_included st)"
  by (simp add: include_library_def Let_def)

lemma add_library_mono_partial:
  "add_library_add_dependencies_dom (Inl (R, lib, st)) \<Longrightarrow>
     add_library R lib st = Inr st' \<Longrightarrow> already_included st \<subseteq> already_included st'"
  "add_library_add_dependencies_dom (Inr (R, ds, st)) \<Longrightarrow>
     add_dependencies R ds st = Inr st' \<Longrightarrow> already_included st \<subseteq> already_included st'"
proof (induction R lib st and R ds st arbitrary: st' and st' rule: add_library_add_dependencies.pinduct)
  case (1 R lib st)
  then show ?case
    by (auto simp: add_library.psimps split: if_splits)
next
  case (2 R st)
  then show ?case by (simp add: add_dependencies.psimps)
next
  case (3 R d ds st)
  from 3(1,4) obtain l st1 where l: "system_libs_map (libs R) d = Some l"
    and a: "add_library R l st = Inr st1" and b: "add_dependencies R ds st1 = Inr st'"
    by (auto simp: add_dependencies.psimps split: option.splits sum.splits)
  from 3(2) [OF l a] 3(3) [OF l a b] show ?case by blast
qed

lemma find_SomeD: "find P xs = Some x \<Longrightarrow> P x \<and> x \<in> set xs"
  by (induction xs) (auto split: if_splits)

lemma system_libs_map_Some:
  "system_libs_map ls d = Some l \<Longrightarrow> shortname l = d \<and> l \<in> set ls"
  unfolding system_libs_map_def by (drule find_SomeD) simp

definition add_library_measure ::
  "resolver \<times> Library \<times> link_state + resolver \<times> string list \<times> link_state \<Rightarrow> nat \<times> nat \<times> nat" where
  "add_library_measure x =
     (case x of
        Inl (R, lib, st) \<Rightarrow>
          (card (insert (shortname lib) (shortname ` set (libs R)) - already_included st), 0, 0)
      | Inr (R, ds, st) \<Rightarrow> (card (shortname ` set (libs R) - already_included st), 1, length ds))"

termination add_library
proof (relation "inv_image (less_than <*lex*> less_than <*lex*> less_than) add_library_measure")
  show "wf (inv_image (less_than <*lex*> less_than <*lex*> less_than) add_library_measure)"
    by (intro wf_inv_image wf_lex_prod wf_less_than)
next
  fix R :: resolver and lib :: Library and st :: link_state
  assume new: "shortname lib \<notin> already_included st"
  let ?K = "shortname ` set (libs R)"
  have "?K - insert (shortname lib) (already_included st)
        \<subset> insert (shortname lib) ?K - already_included st"
    using new by auto
  then have "card (?K - insert (shortname lib) (already_included st))
             < card (insert (shortname lib) ?K - already_included st)"
    by (intro psubset_card_mono) auto
  then show "(Inr (R, deps lib, include_library R lib st), Inl (R, lib, st))
        \<in> inv_image (less_than <*lex*> less_than <*lex*> less_than) add_library_measure"
    by (simp add: add_library_measure_def)
next
  fix R :: resolver and d :: string and ds :: "string list" and st :: link_state and l :: Library
  assume "system_libs_map (libs R) d = Some l"
  then have "shortname l \<in> shortname ` set (libs R)"
    by (auto dest: system_libs_map_Some)
  then have "insert (shortname l) (shortname ` set (libs R)) = shortname ` set (libs R)"
    by auto
  then show "(Inl (R, l, st), Inr (R, d # ds, st))
        \<in> inv_image (less_than <*lex*> less_than <*lex*> less_than) add_library_measure"
    by (simp add: add_library_measure_def)
next
  fix R :: resolver and d :: string and ds :: "string list" and st st' :: link_state and l :: Library
  assume "add_library R l st = Inr st'" and "add_library_add_dependencies_dom (Inl (R, l, st))"
  then have "already_included st \<subseteq> already_included st'"
    by (rule add_library_mono_partial(1) [rotated])
  then have "card (shortname ` set (libs R) - already_included st')
             \<le> card (shortname ` set (libs R) - already_included st)"
    by (intro card_mono) auto
  then show "(Inr (R, ds, st'), Inr (R, d # ds, st))
        \<in> inv_image (less_than <*lex*> less_than <*lex*> less_than) add_library_measure"
    by (auto simp: add_library_measure_def)
qed


subsection \<open>The loop over the table, the link order and \<open>calculate\<close>\<close>

text \<open>
  The symbols of a library that the scanned files leave undefined (\<open>need_syms\<close>), those
  that one of them defines (\<open>has_syms\<close>), and what is left of the first after the second is
  removed.
\<close>

definition need_syms :: "Symbols list \<Rightarrow> Library \<Rightarrow> string list" where
  "need_syms syms lib = filter (\<lambda>s. \<exists>y \<in> set syms. s \<in> set (undefs y)) (symbols lib)"

definition has_syms :: "Symbols list \<Rightarrow> Library \<Rightarrow> string list" where
  "has_syms syms lib = filter (\<lambda>s. \<exists>y \<in> set syms. s \<in> set (defs y)) (symbols lib)"

definition residual_syms :: "Symbols list \<Rightarrow> Library \<Rightarrow> string list" where
  "residual_syms syms lib = filter (\<lambda>s. s \<notin> set (has_syms syms lib)) (need_syms syms lib)"

fun include_loop :: "resolver \<Rightarrow> Library list \<Rightarrow> link_state \<Rightarrow> error + link_state" where
  "include_loop R [] st = Inr st"
| "include_loop R (lib # rest) st =
     (if \<not> startswith (shortname lib) ''lib'' then Inl (AssertionError [])
      else if shortname lib \<in> already_included st then include_loop R rest st
      else
        let force_this = (shortname lib \<in> set (force_include R))
        in if \<not> force_this \<and> only_forced R then include_loop R rest st
           else
             let include_this = (force_this \<or> shortname lib \<in> set (always R))
             in if \<not> include_this \<and> length (residual_syms (symbolses R) lib) = 0
                then include_loop R rest st
                else (case add_library R lib st of
                        Inl e \<Rightarrow> Inl e
                      | Inr st' \<Rightarrow> include_loop R rest st'))"

text \<open>The two stable sorts of \<open>libs_to_link\<close>, on a Boolean key each.\<close>

definition link_order :: "(string \<times> bool) list \<Rightarrow> (string \<times> bool) list" where
  "link_order ls =
     sort_key (\<lambda>x. endswith (fst x) ''libc++abi.bc'') (sort_key (\<lambda>x. endswith (fst x) ''.a'') ls)"

fun whole_archive :: "(string \<times> bool) list \<Rightarrow> bool \<Rightarrow> string list" where
  "whole_archive [] in_group = (if in_group then [''--no-whole-archive''] else [])"
| "whole_archive ((name, need_whole_archive) # rest) in_group =
     (let opening = (need_whole_archive \<and> \<not> in_group);
          in_group = (in_group \<or> opening);
          closing = (in_group \<and> \<not> need_whole_archive);
          in_group = (in_group \<and> \<not> closing)
      in (if opening then [''--whole-archive''] else [])
         @ (if closing then [''--no-whole-archive''] else [])
         @ [name] @ whole_archive rest in_group)"

text \<open>
  The symbol scan: \<open>parallel_llvm_nm\<close> on the absolute paths of the files (none when only
  forced libraries are wanted), a dummy when there is none, the exported functions as undefined
  symbols of the first file, and \<open>add_back_deps\<close> on every file. The exported functions grow
  with the dependencies added. \<open>abspath\<close> is \<open>os.path.abspath\<close>.
\<close>

fun add_back_deps_all ::
  "(string \<times> string list) list \<Rightarrow> Symbols list \<Rightarrow> string list \<Rightarrow> string list \<Rightarrow>
   Symbols list \<times> string list \<times> string list" where
  "add_back_deps_all deps_info [] added exports = ([], added, exports)"
| "add_back_deps_all deps_info (y # ys) added exports =
     (case add_back_deps deps_info y added exports of
        (y', added', exports') \<Rightarrow>
          (case add_back_deps_all deps_info ys added' exports' of
             (ys', added'', exports'') \<Rightarrow> (y' # ys', added'', exports'')))"

definition scan_symbols ::
  "Settings \<Rightarrow> (string \<times> string list) list \<Rightarrow> (string \<Rightarrow> Symbols) \<Rightarrow> (string \<Rightarrow> string) \<Rightarrow> bool \<Rightarrow>
   string list \<Rightarrow> Symbols list \<times> string list" where
  "scan_symbols S deps_info llvm_nm abspath only temp_files =
     (let temp_files = (if only then [] else temp_files);
          syms = map llvm_nm (map abspath temp_files);
          syms = (if length syms = 0 then [\<lparr>defs = [], undefs = []\<rparr>] else syms);
          syms = (hd syms)\<lparr>undefs := undefs (hd syms) @ map tl (EXPORTED_FUNCTIONS S)\<rparr> # tl syms
      in case add_back_deps_all deps_info syms [] (EXPORTED_FUNCTIONS S) of
           (syms, added, exports) \<Rightarrow>
             (syms, if only then exports @ concat (map (\<lambda>(key, val). map (\<lambda>dep. CHR ''_'' # dep) val) deps_info)
                    else exports))"

text \<open>
  \<open>force_include\<close> is a Python set: the names of \<open>EMCC_FORCE_STDLIBS\<close> (every name of the
  table when it is \<open>1\<close>) and those of \<open>forced\<close>. \<open>forced_names\<close> lists its elements, for
  the membership tests.
\<close>

definition forced_names :: "Library list \<Rightarrow> string option \<Rightarrow> string list \<Rightarrow> string list" where
  "forced_names ls force forced =
     (let force = (if force = Some ''1'' then Some (join '','' (remdups (map shortname ls))) else force)
      in (case force of None \<Rightarrow> [] | Some f \<Rightarrow> if f = [] then [] else split_on CHR '','' f) @ forced)"

definition make_resolver ::
  "Settings \<Rightarrow> SymbolFiles \<Rightarrow> (string \<times> string list) list \<Rightarrow> string option \<Rightarrow> string option \<Rightarrow>
   (string \<Rightarrow> Symbols) \<Rightarrow> (string \<Rightarrow> string) \<Rightarrow> (string \<Rightarrow> string) \<Rightarrow> string list \<Rightarrow> string list \<Rightarrow>
   string \<Rightarrow> resolver" where
  "make_resolver S F deps_info EMCC_ONLY_FORCED_STDLIBS EMCC_FORCE_STDLIBS llvm_nm cache abspath temp_files
     forced malloc =
     \<lparr>shared_Settings = S, libs = system_libs S F malloc,
      force_include = forced_names (system_libs S F malloc) EMCC_FORCE_STDLIBS forced,
      always = always_include S malloc,
      only_forced = truthy EMCC_ONLY_FORCED_STDLIBS,
      symbolses = fst (scan_symbols S deps_info llvm_nm abspath (truthy EMCC_ONLY_FORCED_STDLIBS) temp_files),
      cache_get = cache\<rparr>"

text \<open>
  \<open>calculate\<close>. The environment variables \<open>EMCC_ONLY_FORCED_STDLIBS\<close> and
  \<open>EMCC_FORCE_STDLIBS\<close> are \<open>None\<close> when unset. The loop that checks the forced names goes
  through the set \<open>force_include\<close> in the order Python gives its elements, which the program
  does not decide: \<open>iteration xs\<close> is that order for the set built from the list \<open>xs\<close>, a list
  of the same elements. The result is the list of events up to the loop over the table (with
  those of the loop when it succeeds), and the error or the link line.
\<close>

definition calculate ::
  "Settings \<Rightarrow> SymbolFiles \<Rightarrow> (string \<times> string list) list \<Rightarrow> string option \<Rightarrow> string option \<Rightarrow>
   (string \<Rightarrow> Symbols) \<Rightarrow> (string \<Rightarrow> string) \<Rightarrow> (string \<Rightarrow> string) \<Rightarrow> (string list \<Rightarrow> string list) \<Rightarrow>
   string list \<Rightarrow> string list \<Rightarrow> event list \<times> (error + string list)" where
  "calculate S F deps_info EMCC_ONLY_FORCED_STDLIBS EMCC_FORCE_STDLIBS llvm_nm cache abspath iteration
     temp_files forced =
     (let events = [LlvmNm (map abspath (if truthy EMCC_ONLY_FORCED_STDLIBS then [] else temp_files))]
      in case malloc_name S of
           Inl e \<Rightarrow> (events, Inl e)
         | Inr malloc \<Rightarrow>
             let R = make_resolver S F deps_info EMCC_ONLY_FORCED_STDLIBS EMCC_FORCE_STDLIBS
                       llvm_nm cache abspath temp_files forced malloc
             in if \<exists>lib \<in> set (always R). system_libs_map (libs R) lib = None
                then (events, Inl (AssertionError []))
                else
                  (case find (\<lambda>lib. system_libs_map (libs R) lib = None) (iteration (force_include R)) of
                     Some lib \<Rightarrow> (events, Inl (ExitWithError (''invalid forced library: '' @ lib)))
                   | None \<Rightarrow>
                       (case include_loop R (libs R)
                               \<lparr>already_included = {}, libs_to_link = [], trace = events\<rparr> of
                          Inl e \<Rightarrow> (events, Inl e)
                        | Inr st \<Rightarrow>
                            let more_libs =
                                  (if WASM_BACKEND S
                                   then [(cache ''libcompiler_rt_wasm.a'', False), (cache ''libc_rt_wasm.a'', False)]
                                   else []);
                                more_events =
                                  (if WASM_BACKEND S
                                   then [CacheGet ''libcompiler_rt_wasm.a'', CacheGet ''libc_rt_wasm.a'']
                                   else [])
                            in (trace st @ more_events,
                                Inr (whole_archive (link_order (libs_to_link st @ more_libs)) False)))))"


subsection \<open>Predicates on the resolver's state\<close>

text \<open>Every declared dependency names a row of the table.\<close>

definition deps_registered :: "resolver \<Rightarrow> bool" where
  "deps_registered R = (\<forall>l \<in> set (libs R). \<forall>d \<in> set (deps l). system_libs_map (libs R) d \<noteq> None)"

text \<open>
  The two reasons for which the loop over the table or \<open>add_library\<close> includes a module: the
  loop passes it on (it is forced, or, unless only forced libraries are wanted, it is always
  included or has a symbol left in its residual), or it is a declared dependency of a module
  that is included.
\<close>

definition passed_by_loop_row :: "resolver \<Rightarrow> Library \<Rightarrow> bool" where
  "passed_by_loop_row R lib =
     (shortname lib \<in> set (force_include R)
      \<or> (\<not> only_forced R
          \<and> (shortname lib \<in> set (always R) \<or> residual_syms (symbolses R) lib \<noteq> [])))"

definition passed_by_loop :: "resolver \<Rightarrow> string \<Rightarrow> bool" where
  "passed_by_loop R n = (\<exists>lib \<in> set (libs R). shortname lib = n \<and> passed_by_loop_row R lib)"

definition dependency_of_included :: "resolver \<Rightarrow> string set \<Rightarrow> string \<Rightarrow> bool" where
  "dependency_of_included R inc n = (\<exists>p \<in> set (libs R). shortname p \<in> inc \<and> n \<in> set (deps p))"

definition justified :: "resolver \<Rightarrow> string set \<Rightarrow> bool" where
  "justified R inc = (\<forall>n \<in> inc. passed_by_loop R n \<or> dependency_of_included R inc n)"

text \<open>The file of libc++abi on a link line, whatever its extension.\<close>

definition is_libcxxabi :: "string \<Rightarrow> bool" where
  "is_libcxxabi f = startswith (basename f) ''libc++abi.''"

definition is_flag :: "string \<Rightarrow> bool" where
  "is_flag a = (a = ''--whole-archive'' \<or> a = ''--no-whole-archive'')"


section \<open>The queue of JS optimizer passes (emcc.py, \<open>JSOptimizer\<close>)\<close>

text \<open>
  The fields of \<open>JSOptimizer\<close>, with the module variable \<open>final\<close> that \<open>run_passes\<close>
  rebinds and the list of the runs of the external optimizer. \<open>extra_info\<close> is \<open>None\<close> or a
  dictionary.
\<close>

record js_optimizer_call =
  input :: string
  passes :: "string list"
  source_map :: bool
  info :: "(string \<times> string) list option"
  just_split :: bool
  just_concat :: bool
  title :: string

record JSOptimizer =
  queue :: "string list"
  extra_info :: "(string \<times> string) list option"
  queue_history :: "string list"
  blacklist :: "string list"
  minify_whitespace :: bool
  cleanup_shell :: bool
  target :: string
  opt_level :: int
  debug_level :: int
  emit_symbol_map :: bool
  profiling_funcs :: bool
  misc_temp_files :: "string list"
  js_transform_tempfiles :: "string list"
  final :: string
  calls :: "js_optimizer_call list"

text \<open>
  What \<open>flush\<close> reads from outside: the settings, \<open>EMCC_DEBUG\<close>, and the two functions of
  \<open>shared\<close> (whether a pass runs in the native optimizer, and the optimizer run itself, which
  returns the name of the file it wrote).
\<close>

record flush_env =
  Settings_of :: Settings
  DEBUG :: "string option"
  use_native :: "string \<Rightarrow> bool \<Rightarrow> bool"
  js_optimizer :: "js_optimizer_call \<Rightarrow> string"

definition run_passes ::
  "flush_env \<Rightarrow> string list \<Rightarrow> string \<Rightarrow> bool \<Rightarrow> bool \<Rightarrow> JSOptimizer \<Rightarrow> JSOptimizer" where
  "run_passes E ps ttl only_split only_concat self =
     (let ps = [''asm''] @ ps;
          ps = (if PRECISE_F32 (Settings_of E) \<noteq> 0 then [''asmPreciseF32''] @ ps else ps);
          ps = (if (emit_symbol_map self \<or> CYBERDWARF (Settings_of E)) \<and> ''minifyNames'' \<in> set ps
                then ps @ [''symbolMap='' @ target self @ ''.symbols''] else ps);
          ps = (if profiling_funcs self \<and> ''minifyNames'' \<in> set ps then ps @ [''profilingFuncs''] else ps);
          ps = (if minify_whitespace self \<and> ''last'' \<in> set ps then ps @ [''minifyWhitespace''] else ps);
          ps = (if cleanup_shell self \<and> ''last'' \<in> set ps then ps @ [''cleanup''] else ps);
          call = \<lparr>input = final self, passes = ps, source_map = (debug_level self \<ge> 4),
                  info = extra_info self, just_split = only_split, just_concat = only_concat, title = ttl\<rparr>;
          out = js_optimizer E call
      in self\<lparr>misc_temp_files := misc_temp_files self @ [final self, out],
              final := out,
              js_transform_tempfiles := js_transform_tempfiles self @ [out],
              calls := calls self @ [call]\<rparr>)"

text \<open>
  The loop of \<open>flush\<close> that cuts the passes into chunks of the same kind (native or not), with
  the bridging passes \<open>emitJSON\<close> and \<open>receiveJSON\<close> at each seam.
\<close>

fun chunk_passes ::
  "(string \<Rightarrow> bool) \<Rightarrow> string list \<Rightarrow> string list \<Rightarrow> string list list \<Rightarrow> string list list" where
  "chunk_passes native [] cur chunks = (if length cur > 0 then chunks @ [cur] else chunks)"
| "chunk_passes native (p # ps) cur chunks =
     (if length cur = 0 then chunk_passes native ps (cur @ [p]) chunks
      else if native p = native (last cur) then chunk_passes native ps (cur @ [p]) chunks
      else chunk_passes native ps [''receiveJSON'', p] (chunks @ [cur @ [''emitJSON'']]))"

function str_nat :: "nat \<Rightarrow> string" where
  "str_nat n = (if n < 10 then [char_of (48 + n)] else str_nat (n div 10) @ [char_of (48 + n mod 10)])"
  by pat_completeness auto
termination
  by (relation "measure (\<lambda>n. n)") auto

fun run_chunks :: "flush_env \<Rightarrow> string list list \<Rightarrow> nat \<Rightarrow> JSOptimizer \<Rightarrow> JSOptimizer" where
  "run_chunks E [] i self = self"
| "run_chunks E (c # cs) i self =
     run_chunks E cs (Suc i)
       (run_passes E c (''js_opts_'' @ str_nat i) (''receiveJSON'' \<in> set c) (''emitJSON'' \<in> set c) self)"

definition run_chunked :: "flush_env \<Rightarrow> string \<Rightarrow> string list \<Rightarrow> JSOptimizer \<Rightarrow> JSOptimizer" where
  "run_chunked E ttl ps self =
     (let native = (\<lambda>p. use_native E p (debug_level self \<ge> 4));
          chunks = chunk_passes native ps [] []
      in if length chunks = 1 then run_passes E (hd chunks) ttl False False self
         else run_chunks E chunks 0 self)"

text \<open>
  \<open>flush\<close>, and the loop of its branch for \<open>EMCC_DEBUG=2\<close>, which flushes every pass on its
  own and puts the extra info back after each.
\<close>

definition skipped :: "flush_env \<Rightarrow> string list \<Rightarrow> bool" where
  "skipped E q = (ASM_JS (Settings_of E) = 0 \<and> length q = 1 \<and> hd q = ''last'')"

definition drop_blacklisted :: "JSOptimizer \<Rightarrow> JSOptimizer" where
  "drop_blacklisted self = self\<lparr>queue := filter (\<lambda>p. p \<notin> set (blacklist self)) (queue self)\<rparr>"

definition none_if_empty :: "JSOptimizer \<Rightarrow> JSOptimizer" where
  "none_if_empty self =
     (if extra_info self \<noteq> None \<and> length (the (extra_info self)) = 0
      then self\<lparr>extra_info := None\<rparr> else self)"

definition flushed :: "JSOptimizer \<Rightarrow> JSOptimizer" where
  "flushed self = self\<lparr>queue_history := queue_history self @ queue self, queue := []\<rparr>"

function flush :: "flush_env \<Rightarrow> string \<Rightarrow> JSOptimizer \<Rightarrow> error + JSOptimizer"
  and flush_each ::
    "flush_env \<Rightarrow> string list \<Rightarrow> (string \<times> string) list option \<Rightarrow> JSOptimizer \<Rightarrow> error + JSOptimizer" where
  "flush E ttl self0 =
     (let self = drop_blacklisted self0
      in if WASM_BACKEND (Settings_of E)
         then Inl (AssertionError ''JSOptimizer should not run with pure wasm output'')
         else
           let self = none_if_empty self
           in if length (queue self) > 0 \<and> \<not> skipped E (queue self)
              then
                (case (if DEBUG E \<noteq> Some ''2'' \<or> length (queue self) < 2
                       then Inr (run_chunked E ttl (queue self) self)
                       else flush_each E (queue self) (extra_info self) self) of
                   Inl e \<Rightarrow> Inl e
                 | Inr self \<Rightarrow> Inr ((flushed self)\<lparr>extra_info := Some []\<rparr>))
              else Inr (self\<lparr>extra_info := Some []\<rparr>))"
| "flush_each E [] extra self = Inr self"
| "flush_each E (p # ps) extra self =
     (case flush E p (self\<lparr>queue := [p]\<rparr>) of
        Inl e \<Rightarrow> Inl e
      | Inr self \<Rightarrow> flush_each E ps extra (self\<lparr>extra_info := extra\<rparr>))"
  by pat_completeness auto
termination flush
proof (relation "measure (\<lambda>x. case x of
            Inl (E, ttl, self) \<Rightarrow> 3 * length (queue self) + 1
          | Inr (E, ps, extra, self) \<Rightarrow> 4 + length ps)")
  fix E :: flush_env and ttl :: string and self0 x xa :: JSOptimizer
  assume x: "x = drop_blacklisted self0" and xa: "xa = none_if_empty x"
    and long: "\<not> (DEBUG E \<noteq> Some ''2'' \<or> length (queue xa) < 2)"
  have "queue xa = filter (\<lambda>p. p \<notin> set (blacklist self0)) (queue self0)"
    using x xa by (simp add: drop_blacklisted_def none_if_empty_def)
  then have "length (queue xa) \<le> length (queue self0)"
    by simp
  with long show "(Inr (E, queue xa, extra_info xa, xa), Inl (E, ttl, self0))
      \<in> measure (\<lambda>x. case x of
            Inl (E, ttl, self) \<Rightarrow> 3 * length (queue self) + 1
          | Inr (E, ps, extra, self) \<Rightarrow> 4 + length ps)"
    by simp
qed simp_all


section \<open>Response files (tools/response_file.py and the loop at the start of \<open>run\<close>)\<close>

text \<open>
  The file system is a function from a path to the text of the file there, \<open>None\<close> where
  \<open>os.path.exists\<close> is false; \<open>shlex_split\<close> is \<open>shlex.split\<close>, which may raise.
\<close>

record files =
  read_file :: "string \<Rightarrow> string option"
  shlex_split :: "string \<Rightarrow> error + string list"

definition read_response_file :: "files \<Rightarrow> string \<Rightarrow> error + string list" where
  "read_response_file fs response_filename =
     (let response_filename =
            (if startswith response_filename ''@'' then tl response_filename else response_filename)
      in case read_file fs response_filename of
           None \<Rightarrow> Inl (ResponseFileNotFound response_filename)
         | Some args \<Rightarrow> shlex_split fs args)"

text \<open>
  The \<open>for\<close> loop over \<open>range(1, len(sys.argv))\<close>: the index of the first argument whose first
  character is \<open>@\<close>; reading the first character of an empty argument raises.
\<close>

fun find_response_file :: "string list \<Rightarrow> nat \<Rightarrow> error + nat option" where
  "find_response_file [] index = Inr None"
| "find_response_file (arg # args) index =
     (if arg = [] then Inl IndexError
      else if hd arg = CHR ''@'' then Inr (Some index)
      else find_response_file args (Suc index))"

text \<open>
  The \<open>while\<close> loop: as long as a response file is found, its arguments are sliced in in its
  place. A response file that names itself keeps the loop running for ever; the value is
  \<open>None\<close> then.
\<close>

partial_function (option) read_response_files :: "files \<Rightarrow> string list \<Rightarrow> (error + string list) option" where
  "read_response_files fs argv =
     (case find_response_file (drop 1 argv) 1 of
        Inl e \<Rightarrow> Some (Inl e)
      | Inr None \<Rightarrow> Some (Inr argv)
      | Inr (Some index) \<Rightarrow>
          (case read_response_file fs (argv ! index) of
             Inl e \<Rightarrow> Some (Inl e)
           | Inr extra_args \<Rightarrow>
               read_response_files fs (take index argv @ extra_args @ drop (Suc index) argv)))"

text \<open>An argument that the loop passes over: not empty, and not starting with \<open>@\<close>.\<close>

definition plain :: "string \<Rightarrow> bool" where
  "plain arg = (arg \<noteq> [] \<and> hd arg \<noteq> CHR ''@'')"

text \<open>
  The loop as a relation between the argument vector and the outcome, one rule for each way
  a round of the loop can go.
\<close>

inductive expands :: "files \<Rightarrow> string list \<Rightarrow> error + string list \<Rightarrow> bool" for fs where
  no_response_file:
    "find_response_file (drop 1 argv) 1 = Inr None \<Longrightarrow> expands fs argv (Inr argv)"
| empty_argument:
    "find_response_file (drop 1 argv) 1 = Inl e \<Longrightarrow> expands fs argv (Inl e)"
| read_fails:
    "find_response_file (drop 1 argv) 1 = Inr (Some index) \<Longrightarrow>
     read_response_file fs (argv ! index) = Inl e \<Longrightarrow> expands fs argv (Inl e)"
| sliced_in:
    "find_response_file (drop 1 argv) 1 = Inr (Some index) \<Longrightarrow>
     read_response_file fs (argv ! index) = Inr extra_args \<Longrightarrow>
     expands fs (take index argv @ extra_args @ drop (Suc index) argv) out \<Longrightarrow>
     expands fs argv out"

text \<open>
  The start of \<open>run\<close>, up to the end of the loop: the arguments of \<open>EMCC_CFLAGS\<close> are
  added to the command line, \<open>--emscripten-cxx\<close> is looked for and taken out, a command line
  of the program name alone ends the run, and then the response files are read. The result is
  \<open>EMCC_CXX\<close> and the argument vector. \<open>shared.check_sanity\<close>, which does not read the
  arguments, is left out.
\<close>

definition run_arguments ::
  "files \<Rightarrow> string option \<Rightarrow> string list \<Rightarrow> (error + bool \<times> string list) option" where
  "run_arguments fs EMCC_CFLAGS argv =
     (case (case EMCC_CFLAGS of
              None \<Rightarrow> Inr argv
            | Some flags \<Rightarrow>
                if flags = [] then Inr argv
                else (case shlex_split fs flags of Inl e \<Rightarrow> Inl e | Inr extra \<Rightarrow> Inr (argv @ extra))) of
        Inl e \<Rightarrow> Some (Inl e)
      | Inr argv \<Rightarrow>
          let EMCC_CXX = (''--emscripten-cxx'' \<in> set argv);
              argv = filter (\<lambda>x. x \<noteq> ''--emscripten-cxx'') argv
          in if length argv = 1 then Some (Inl (SystemExit 1))
             else (case read_response_files fs argv of
                     None \<Rightarrow> None
                   | Some (Inl e) \<Rightarrow> Some (Inl e)
                   | Some (Inr argv) \<Rightarrow> Some (Inr (EMCC_CXX, argv))))"


section \<open>The memory initializer (emcc.py, the block \<open>memory initializer\<close> of \<open>run\<close>)\<close>

text \<open>
  \<open>int(x or '0')\<close> on a piece of the initializer list: blanks around the number are dropped,
  an empty piece is zero, and anything but decimal digits raises.
\<close>

definition is_digit :: "char \<Rightarrow> bool" where
  "is_digit c = (48 \<le> (of_char c :: nat) \<and> (of_char c :: nat) \<le> 57)"

definition strip_blanks :: "string \<Rightarrow> string" where
  "strip_blanks x = rev (dropWhile (\<lambda>c. c = CHR '' '') (rev (dropWhile (\<lambda>c. c = CHR '' '') x)))"

definition decimal :: "string \<Rightarrow> nat" where
  "decimal x = foldl (\<lambda>n c. 10 * n + (of_char c - 48)) 0 x"

definition py_int :: "string \<Rightarrow> error + nat" where
  "py_int x =
     (let x = (if x = [] then ''0'' else x);
          d = strip_blanks x
      in if d \<noteq> [] \<and> list_all is_digit d then Inr (decimal d) else Inl ValueError)"

fun ints :: "string list \<Rightarrow> error + nat list" where
  "ints [] = Inr []"
| "ints (x # xs) =
     (case py_int x of
        Inl e \<Rightarrow> Inl e
      | Inr n \<Rightarrow> (case ints xs of Inl e \<Rightarrow> Inl e | Inr ns \<Rightarrow> Inr (n # ns)))"

text \<open>The \<open>while\<close> loop that pops the zero bytes at the end.\<close>

definition pop_zeros :: "nat list \<Rightarrow> nat list" where
  "pop_zeros membytes = rev (dropWhile (\<lambda>b. b = 0) (rev membytes))"

text \<open>
  \<open>repl\<close>, called on the first group of a match: the text that replaces the match, and the
  bytes written to the memory file when it is written. \<open>generate_string_initializer\<close> is the
  function of \<open>shared.JS\<close>.
\<close>

definition wasm_memory_initializer_template :: string where
  \<open>wasm_memory_initializer_template =
     ''memoryInitializer = Module["wasmJSMethod"].indexOf("asmjs") >= 0 || Module["wasmJSMethod"].indexOf("interpret-asm2wasm") >= 0 ? "%s" : null;''\<close>

definition repl ::
  "Settings \<Rightarrow> EmccOptions \<Rightarrow> (nat list \<Rightarrow> string) \<Rightarrow> string \<Rightarrow> string \<Rightarrow>
   error + string \<times> nat list option" where
  \<open>repl S options generate_string_initializer memfile s =
     (if length s = 0 then Inr ([], None)
      else
        (case ints (split_on CHR '','' s) of
           Inl e \<Rightarrow> Inl e
         | Inr membytes \<Rightarrow>
             let membytes = pop_zeros membytes
             in if membytes = [] then Inr ([], None)
                else if \<not> memory_init_file options
                then Inr (fmt ''memoryInitializer = '%s';'' [generate_string_initializer membytes], None)
                else if \<not> list_all (\<lambda>b. b < 256) membytes then Inl ValueError
                else if \<not> BINARYEN S
                then Inr (fmt ''memoryInitializer = "%s";'' [basename memfile], Some membytes)
                else Inr (fmt wasm_memory_initializer_template [basename memfile], Some membytes)))\<close>

text \<open>
  \<open>re.sub(pattern, repl, text, count)\<close>, with the pattern as the function \<open>search\<close> that cuts a
  text at its first match into what stands before, the first group, and what stands after.
  The replaced text comes with the memory files written on the way.
\<close>

fun re_sub ::
  "(string \<Rightarrow> (string \<times> string \<times> string) option) \<Rightarrow> (string \<Rightarrow> error + string \<times> nat list option) \<Rightarrow>
   nat \<Rightarrow> string \<Rightarrow> error + string \<times> nat list list" where
  "re_sub search f 0 text = Inr (text, [])"
| "re_sub search f (Suc n) text =
     (case search text of
        None \<Rightarrow> Inr (text, [])
      | Some (before, group1, after) \<Rightarrow>
          (case f group1 of
             Inl e \<Rightarrow> Inl e
           | Inr (new, written) \<Rightarrow>
               (case re_sub search f n after of
                  Inl e \<Rightarrow> Inl e
                | Inr (rest, more_written) \<Rightarrow>
                    Inr (before @ new @ rest,
                         (case written of None \<Rightarrow> [] | Some bytes \<Rightarrow> [bytes]) @ more_written))))"

text \<open>
  The block: the name of the memory file, the binary files written (name and bytes), the text
  files written (name and text), and the new value of \<open>final\<close>. \<open>js_text\<close> is the text of the
  file \<open>final\<close>; \<open>optimize_initializer\<close> is the function of \<open>shared.JS\<close>.
\<close>

record memory_initializer_result =
  memfile :: "string option"
  binary_written :: "(string \<times> nat list) list"
  text_written :: "(string \<times> string) list"
  new_final :: string

definition memory_initializer ::
  "Settings \<Rightarrow> EmccOptions \<Rightarrow> int \<Rightarrow> (string \<Rightarrow> (string \<times> string \<times> string) option) \<Rightarrow>
   (nat list \<Rightarrow> string) \<Rightarrow> (string \<Rightarrow> string option) \<Rightarrow> string \<Rightarrow> string \<Rightarrow> string \<Rightarrow>
   error + memory_initializer_result" where
  "memory_initializer S options debug search generate_string_initializer optimize_initializer
                      target_name final_name js_text =
     (if MEM_INIT_METHOD S > 0 then
        (let mem = target_name @ ''.mem''
         in case re_sub search (repl S options generate_string_initializer mem) 1 js_text of
              Inl e \<Rightarrow> Inl e
            | Inr (js_text, written) \<Rightarrow>
                Inr \<lparr>memfile = Some mem,
                     binary_written = map (\<lambda>bytes. (mem, bytes)) written,
                     text_written = [(final_name @ ''.mem.js'', js_text)],
                     new_final = final_name @ ''.mem.js''\<rparr>)
      else if \<not> MAIN_MODULE S \<and> \<not> SIDE_MODULE S \<and> debug < 4 then
        (case optimize_initializer js_text of
           None \<Rightarrow> Inr \<lparr>memfile = None, binary_written = [], text_written = [], new_final = final_name\<rparr>
         | Some js_text \<Rightarrow>
             Inr \<lparr>memfile = None, binary_written = [],
                  text_written = [(final_name @ ''.mem.js'', js_text)], new_final = final_name @ ''.mem.js''\<rparr>)
      else Inr \<lparr>memfile = None, binary_written = [], text_written = [], new_final = final_name\<rparr>)"


section \<open>The link step (emcc.py, the block \<open>link\<close> of \<open>run\<close>)\<close>

text \<open>
  The files are a map from paths to contents. \<open>shutil.move\<close> and \<open>shutil.copyfile\<close> fail on a
  source that is not there; copying a file onto itself fails too, moving it onto itself does
  nothing.
\<close>

type_synonym file_system = "string \<rightharpoonup> string"

definition shutil_move :: "string \<Rightarrow> string \<Rightarrow> file_system \<Rightarrow> error + file_system" where
  "shutil_move a b fs =
     (case fs a of
        None \<Rightarrow> Inl (IOError a)
      | Some content \<Rightarrow> if a = b then Inr fs else Inr ((fs(a := None))(b \<mapsto> content)))"

definition shutil_copyfile :: "string \<Rightarrow> string \<Rightarrow> file_system \<Rightarrow> error + file_system" where
  "shutil_copyfile a b fs =
     (case fs a of
        None \<Rightarrow> Inl (IOError a)
      | Some content \<Rightarrow> if a = b then Inl (IOError a) else Inr (fs(b \<mapsto> content)))"

text \<open>
  A call of \<open>shared.Building.link\<close>, and the value of \<open>final\<close>: a path, or the list of files
  of a deferred link.
\<close>

record link_call =
  inputs :: "string list"
  link_target :: string
  force_archive_contents :: bool
  just_calculate :: bool

datatype final_value = Path string | Deferred "string list"

record link_world =
  files :: file_system
  link_calls :: "link_call list"
  final_file :: "final_value option"

text \<open>
  What the block reads from outside: the environment variables, and the functions of
  \<open>shared\<close> (the suffix of a name, the archive test, whether standalone builds are possible,
  and \<open>link\<close> itself, which returns the new \<open>final\<close> and the files it leaves).
\<close>

record link_env =
  LEAVE_INPUTS_RAW :: bool
  debug_is_2 :: bool
  temp_dir :: string
  suffix_of :: "string \<Rightarrow> string option"
  is_ar :: "string \<Rightarrow> bool"
  can_build_standalone :: bool
  run_link :: "link_call \<Rightarrow> file_system \<Rightarrow> final_value \<times> file_system"

definition BITCODE_ENDINGS :: "string list" where
  "BITCODE_ENDINGS = [''.bc'', ''.o'', ''.obj'', ''.lo'']"

definition DYNAMICLIB_ENDINGS :: "string list" where
  "DYNAMICLIB_ENDINGS = [''.dylib'', ''.so'']"

definition STATICLIB_ENDINGS :: "string list" where
  "STATICLIB_ENDINGS = [''.a'']"

definition in_temp :: "link_env \<Rightarrow> string \<Rightarrow> string" where
  "in_temp E name = temp_dir E @ ''/'' @ basename name"

text \<open>\<open>x in endings\<close> for a suffix that may be \<open>None\<close>.\<close>

definition suffix_in :: "string option \<Rightarrow> string list \<Rightarrow> bool" where
  "suffix_in x endings = (case x of None \<Rightarrow> False | Some s \<Rightarrow> s \<in> set endings)"

text \<open>
  The condition of the \<open>if\<close>, with the short circuit of \<open>or\<close> and \<open>and\<close>: \<open>temp_files[0]\<close>
  is read only when the first test fails and the inputs are not left raw, and raises on an
  empty list.
\<close>

definition must_link ::
  "link_env \<Rightarrow> ('i \<times> string) list \<Rightarrow> ('i \<times> string) list \<Rightarrow> string list \<Rightarrow> error + bool" where
  "must_link E input_files temp_files extra_files_to_link =
     (if length input_files + length extra_files_to_link > 1 then Inr True
      else if LEAVE_INPUTS_RAW E then Inr False
      else
        (case temp_files of
           [] \<Rightarrow> Inl IndexError
         | (_, temp_file) # _ \<Rightarrow>
             Inr (\<not> (suffix_in (suffix_of E temp_file) BITCODE_ENDINGS
                      \<or> suffix_in (suffix_of E temp_file) DYNAMICLIB_ENDINGS)
                  \<and> is_ar E temp_file)))"

definition link_step ::
  "link_env \<Rightarrow> Settings \<Rightarrow> ('i \<times> string) list \<Rightarrow> ('i \<times> string) list \<Rightarrow> string list \<Rightarrow> string list \<Rightarrow>
   string \<Rightarrow> link_world \<Rightarrow> error + link_world" where
  "link_step E S input_files temp_files extra_files_to_link linker_inputs target_basename w =
     (case must_link E input_files temp_files extra_files_to_link of
        Inl e \<Rightarrow> Inl e
      | Inr True \<Rightarrow>
          (let linker_inputs = linker_inputs @ extra_files_to_link;
               call = \<lparr>inputs = linker_inputs,
                       link_target = in_temp E (target_basename @ ''.bc''),
                       force_archive_contents =
                         (length (filter (\<lambda>(i, temp). \<not> (\<exists>e \<in> set STATICLIB_ENDINGS. endswith temp e)) temp_files) = 0
                          \<or> \<not> can_build_standalone E),
                       just_calculate = (\<not> debug_is_2 E \<and> \<not> WASM_BACKEND S)\<rparr>;
               (new_final, fs) = run_link E call (files w)
           in Inr (w\<lparr>files := fs, link_calls := link_calls w @ [call], final_file := Some new_final\<rparr>))
      | Inr False \<Rightarrow>
          (if \<not> LEAVE_INPUTS_RAW E then
             (case (temp_files, input_files) of
                ((_, temp_file) # _, (_, input_file) # _) \<Rightarrow>
                  (let new_final = in_temp E (target_basename @ ''.bc'')
                   in case (if temp_file \<noteq> input_file then shutil_move temp_file new_final (files w)
                            else shutil_copyfile temp_file new_final (files w)) of
                        Inl e \<Rightarrow> Inl e
                      | Inr fs \<Rightarrow> Inr (w\<lparr>files := fs, final_file := Some (Path new_final)\<rparr>))
              | _ \<Rightarrow> Inl IndexError)
           else
             (case input_files of
                (_, input_file) # _ \<Rightarrow>
                  (let new_final = in_temp E input_file
                   in case shutil_copyfile input_file new_final (files w) of
                        Inl e \<Rightarrow> Inl e
                      | Inr fs \<Rightarrow> Inr (w\<lparr>files := fs, final_file := Some (Path new_final)\<rparr>))
              | [] \<Rightarrow> Inl IndexError)))"

text \<open>
  Modelled from the spec: \<open>shared.Building.link\<close> is not among the sources. The linked module
  of a list of object files is, in the words of the specification (4.5), the concatenation of
  the objects; it is there when every object is.
\<close>

definition linked_module :: "file_system \<Rightarrow> string list \<Rightarrow> string option" where
  "linked_module fs objects =
     (if list_all (\<lambda>p. fs p \<noteq> None) objects then Some (concat (map (\<lambda>p. the (fs p)) objects)) else None)"


section \<open>Input files and precompiled headers (emcc.py, \<open>run\<close>)\<close>

subsection \<open>File name endings\<close>












subsection \<open>The loop that finds the input files\<close>









subsection \<open>The input files between the loop and the compilation\<close>






subsection \<open>Precompiled headers\<close>







section \<open>Example inputs\<close>

subsection \<open>An example build for the resolver\<close>

text \<open>
  Symbol lists, a scanned file that uses the C++ standard output stream, and a cache
  directory, for concrete runs of \<open>calculate\<close>.
\<close>

definition example_symbol_files :: SymbolFiles where
  "example_symbol_files =
     \<lparr>libc_symbols = [''printf'', ''memcpy''], libcxx_symbols = [''_ZNSt3__14coutE''],
      libcxxabi_symbols = [''__cxa_throw''], gl_symbols = [''glClear''], al_symbols = [''alGenSources''],
      compiler_rt_symbols = [''__muldi3''], libc_extras_symbols = [''emscripten_run_script''],
      pthreads_symbols = [''pthread_create''], asmjs_pthreads_symbols = [''emscripten_atomic_add_u32''],
      stub_pthreads_symbols = [''pthread_self''], wasm_libc_symbols = [''fmod''],
      html5_symbols = [''emscripten_set_keydown_callback'']\<rparr>"

definition example_nm :: "string \<Rightarrow> Symbols" where
  "example_nm path = (if path = ''/tmp/hello.o'' then \<lparr>defs = [''main''], undefs = [''_ZNSt3__14coutE'']\<rparr>
     else \<lparr>defs = [], undefs = []\<rparr>)"

definition example_cache :: "string \<Rightarrow> string" where
  "example_cache name = ''/cache/'' @ name"

text \<open>
  Absolute paths from the working directory \<open>/work\<close>, and a set that gives its elements in
  the order in which they were first added.
\<close>

definition example_abspath :: "string \<Rightarrow> string" where
  "example_abspath t = (if startswith t ''/'' then t else ''/work/'' @ t)"

definition example_iteration :: "string list \<Rightarrow> string list" where
  "example_iteration xs = remdups xs"

definition example_resolver :: resolver where
  "example_resolver =
     make_resolver example_settings example_symbol_files [] None None example_nm example_cache
       example_abspath [''/tmp/hello.o''] [] ''libdlmalloc''"

definition example_libc :: Library where
  "example_libc = Library ''libc'' ''bc'' ''create_libc'' [''printf'', ''memcpy''] [''libcompiler_rt''] False"

definition empty_link_state :: link_state where
  "empty_link_state = \<lparr>already_included = {}, libs_to_link = [], trace = []\<rparr>"

definition example_libcxx :: Library where
  "example_libcxx = Library ''libc++'' ''a'' ''create_libcxx'' [''_ZNSt3__14coutE''] [''libc++abi''] True"

subsection \<open>An example optimizer\<close>

definition example_flush_env :: flush_env where
  "example_flush_env =
     \<lparr>Settings_of = example_settings\<lparr>ASM_JS := 0\<rparr>, DEBUG = None,
      use_native = (\<lambda>p source_map. p \<in> set [''eliminate'', ''simplifyExpressions'', ''registerize'']),
      js_optimizer = (\<lambda>call. input call @ ''.jso.js'')\<rparr>"

definition example_optimizer :: JSOptimizer where
  "example_optimizer =
     \<lparr>queue = [''last''], extra_info = Some [], queue_history = [], blacklist = [''''],
      minify_whitespace = False, cleanup_shell = False, target = ''a.out.js'', opt_level = 2,
      debug_level = 0, emit_symbol_map = False, profiling_funcs = False, misc_temp_files = [],
      js_transform_tempfiles = [''/tmp/a.out.js''], final = ''/tmp/a.out.js'', calls = []\<rparr>"

definition example_asmjs_env :: flush_env where
  "example_asmjs_env = example_flush_env\<lparr>Settings_of := example_settings\<lparr>ASM_JS := 1\<rparr>\<rparr>"

definition example_busy_optimizer :: JSOptimizer where
  "example_busy_optimizer =
     example_optimizer\<lparr>queue := [''eliminate'', ''minifyNames'', ''last''],
                       extra_info := Some [(''dead_functions'', ''[]'')]\<rparr>"

subsection \<open>An example file system\<close>

definition example_files :: files where
  "example_files =
     \<lparr>read_file = (\<lambda>path. if path = ''args.txt'' then Some ''-O2 -o out.bin''
                          else if path = ''cxx.rsp'' then Some ''--emscripten-cxx -O2'' else None),
      shlex_split = (\<lambda>text. if text = ''-O2 -o out.bin'' then Inr [''-O2'', ''-o'', ''out.bin'']
                             else if text = ''--emscripten-cxx -O2'' then Inr [''--emscripten-cxx'', ''-O2'']
                             else Inl ValueError)\<rparr>"

subsection \<open>An example script with a memory initializer\<close>

text \<open>
  A pattern that finds the initializer list of one script: \<open>example_search l\<close> finds the list in
  the script \<open>example_script l\<close>.
\<close>

definition example_script :: "string \<Rightarrow> string" where
  "example_script list_text =
     ''var STATICTOP = 8; /* memory initializer */ allocate(['' @ list_text @ ''], 1); run();''"

definition example_search :: "string \<Rightarrow> string \<Rightarrow> (string \<times> string \<times> string) option" where
  "example_search list_text text =
     (if text = example_script list_text
      then Some (''var STATICTOP = 8; '', list_text, '' run();'')
      else None)"

definition example_string_initializer :: "nat list \<Rightarrow> string" where
  "example_string_initializer membytes = map (\<lambda>b. char_of b) membytes"

definition example_options :: EmccOptions where
  "example_options = \<lparr>proxy_to_worker = False, memory_init_file = True, separate_asm = False\<rparr>"

subsection \<open>An example link step\<close>

definition example_link_env :: link_env where
  "example_link_env =
     \<lparr>LEAVE_INPUTS_RAW = False, debug_is_2 = False, temp_dir = ''/tmp'',
      suffix_of = (\<lambda>name. if endswith name ''.o'' then Some ''o'' else None),
      is_ar = (\<lambda>name. endswith name ''.a''),
      can_build_standalone = True,
      run_link = (\<lambda>call fs. (Deferred (inputs call), fs))\<rparr>"

definition example_link_world :: link_world where
  "example_link_world =
     \<lparr>files = [''hello.c'' \<mapsto> ''int main() {}'', ''/tmp/hello_0.o'' \<mapsto> ''BC main''],
      link_calls = [], final_file = None\<rparr>"

subsection \<open>An example command line with headers\<close>








section \<open>Properties of the script source\<close>

lemma fmt_nonempty: "c \<noteq> CHR ''%'' \<Longrightarrow> fmt (c # cs) as \<noteq> []"
  by simp

lemma truthy_simps [simp]: "truthy None = False" "truthy (Some s) = (s \<noteq> [])"
  by (simp_all add: truthy_def)

lemma un_src_template_nonempty: "fmt un_src_template as \<noteq> []"
  unfolding un_src_template_def by (rule fmt_nonempty) simp

lemma un_src_src: "src (un_src s) = None"
  by (simp add: un_src_def split: option.splits)

lemma un_src_exactly_one: "exactly_one s \<Longrightarrow> exactly_one (un_src s)"
  by (auto simp: un_src_def exactly_one_def un_src_template_nonempty split: option.splits)

lemma un_src_inline: "exactly_one s \<Longrightarrow> \<exists>i. inline (un_src s) = Some i"
  using un_src_exactly_one [of s] un_src_src [of s]
  by (cases "inline (un_src s)") (auto simp: exactly_one_def)

lemma un_src_loader:
  \<open>fmt un_src_template [u] =
   ''\<newline>          var script = document.createElement('script');\<newline>          script.src = "'' @ u
   @ ''";\<newline>          document.body.appendChild(script);\<newline>''\<close>
  by (simp add: un_src_template_def)

lemma wrap_emterpreter_one: "exactly_one (wrap_emterpreter settings s)"
  unfolding wrap_emterpreter_def Let_def exactly_one_def emterpret_template_def
  by (simp add: un_src_src del: fmt.simps add: fmt_nonempty)

lemma wrap_wasm_one: "exactly_one (wrap_wasm t s)"
  unfolding wrap_wasm_def Let_def exactly_one_def wasm_template_def
  by (simp add: un_src_src del: fmt.simps add: fmt_nonempty)

lemma wrap_separate_asm_one: "exactly_one (wrap_separate_asm t mods s)"
  unfolding wrap_separate_asm_def Let_def exactly_one_def asm_load_template_def asm_mods_template_def
  by (simp add: un_src_src del: fmt.simps add: fmt_nonempty)

lemma wrap_meminit_one: "wrap_meminit mfile s = Inr s' \<Longrightarrow> exactly_one s'"
  unfolding wrap_meminit_def Let_def exactly_one_def meminit_template_def
  by (auto simp del: fmt.simps simp add: fmt_nonempty un_src_src split: option.splits)

lemma wrap_meminit_returns:
  "exactly_one s \<Longrightarrow> mfile \<noteq> None \<Longrightarrow> \<exists>s'. wrap_meminit mfile s = Inr s'"
  using un_src_inline [of s] unfolding wrap_meminit_def Let_def
  by (auto split: option.splits)

lemma basename_js: "basename (stem @ ''.js'') \<noteq> []"
  by (simp add: basename_def)

lemma initial_script_one:
  "exactly_one (initial_script options settings wjs (stem @ ''.js'') tb)"
  unfolding initial_script_def Let_def exactly_one_def ScriptSource_init_def proxy_template_head_def
  using basename_js [of stem] by simp

lemma html_script_one:
  assumes "html_script shell options settings wjs mods (stem @ ''.js'') tb at wt mfile = Inr script"
  shows "exactly_one script"
proof -
  let ?s0 = "initial_script options settings wjs (stem @ ''.js'') tb"
  let ?s1 = "if EMTERPRETIFY_FILE settings \<noteq> [] then wrap_emterpreter settings ?s0 else ?s0"
  have s1: "exactly_one ?s1"
    by (simp add: initial_script_one wrap_emterpreter_one)
  obtain s2 where s2: "(if memory_init_file options then wrap_meminit mfile ?s1 else Inr ?s1) = Inr s2"
    and rest: "script =
      (let script = (if no_separate_asm options settings then s2
                     else wrap_separate_asm at (if proxy_to_worker options then [] else mods) s2);
           script = (if BINARYEN settings \<and> \<not> BINARYEN_ASYNC_COMPILATION settings
                     then wrap_wasm wt script else script)
       in script)"
    using assms unfolding html_script_def Let_def
    by (auto split: if_splits sum.splits)
  have "exactly_one s2"
    using s2 s1 by (auto split: if_splits dest: wrap_meminit_one)
  then show ?thesis
    unfolding rest Let_def by (simp add: wrap_separate_asm_one wrap_wasm_one)
qed

lemma html_script_returns:
  assumes "contains shell ''{{{ SCRIPT }}}''"
    and "memory_init_file options \<longrightarrow> mfile \<noteq> None"
    and "no_separate_asm options settings \<and> \<not> proxy_to_worker options \<longrightarrow> mods = []"
  shows "\<exists>script. html_script shell options settings wjs mods (stem @ ''.js'') tb at wt mfile = Inr script"
proof -
  let ?s0 = "initial_script options settings wjs (stem @ ''.js'') tb"
  let ?s1 = "if EMTERPRETIFY_FILE settings \<noteq> [] then wrap_emterpreter settings ?s0 else ?s0"
  have s1: "exactly_one ?s1"
    by (simp add: initial_script_one wrap_emterpreter_one)
  have "\<exists>s2. (if memory_init_file options then wrap_meminit mfile ?s1 else Inr ?s1) = Inr s2"
    using wrap_meminit_returns [OF s1, of mfile] assms(2) by auto
  then obtain s2 where "(if memory_init_file options then wrap_meminit mfile ?s1 else Inr ?s1) = Inr s2" ..
  then show ?thesis
    using assms(1,3) unfolding html_script_def Let_def by (auto split: if_splits)
qed

lemma replacement_ok: "exactly_one s \<Longrightarrow> \<exists>r. replacement quote s = Inr r"
  unfolding replacement_def exactly_one_def by auto

text \<open>
  C10. The script source keeps exactly one of its two fields set: \<open>un_src\<close> preserves the
  invariant, does nothing when no reference is set, and turns a reference \<open>u\<close> into the inline
  loader that creates a script element with that reference; each wrapping step (emterpreter
  file, memory-init file, separate asm, synchronous wasm) preserves the invariant; and for a
  script target \<open>stem.js\<close>, as \<open>run\<close> builds it, the value \<open>generate_html\<close> passes to
  \<open>replacement\<close> satisfies the invariant, so that the assertion of \<open>replacement\<close> holds and the
  script tag is produced. The harness is produced whenever the shell has its marker, a memory
  file name is there when a memory-init file is requested, and no client code mods come without
  a separate asm file.
\<close>

theorem script_source_exactly_one:
  \<open>(exactly_one s \<longrightarrow>
      exactly_one (un_src s)
      \<and> exactly_one (wrap_emterpreter settings s)
      \<and> (\<forall>s'. wrap_meminit mfile s = Inr s' \<longrightarrow> exactly_one s')
      \<and> exactly_one (wrap_separate_asm asm_target asm_mods s)
      \<and> exactly_one (wrap_wasm wasm_binary_target s))
   \<and> (src s = None \<longrightarrow> un_src s = s)
   \<and> (src s = Some u \<longrightarrow>
        un_src s = s\<lparr>inline := Some
          (''\<newline>          var script = document.createElement('script');\<newline>          script.src = "'' @ u
           @ ''";\<newline>          document.body.appendChild(script);\<newline>''), src := None\<rparr>)
   \<and> (html_script shell options settings wjs mods (stem @ ''.js'') tb at wt mf = Inr script \<longrightarrow>
        exactly_one script \<and> (\<exists>r. replacement quote script = Inr r))
   \<and> (contains shell ''{{{ SCRIPT }}}''
        \<and> (memory_init_file options \<longrightarrow> mf \<noteq> None)
        \<and> (no_separate_asm options settings \<and> \<not> proxy_to_worker options \<longrightarrow> mods = []) \<longrightarrow>
        (\<exists>script. html_script shell options settings wjs mods (stem @ ''.js'') tb at wt mf = Inr script))\<close>
proof -
  have "src s = Some u \<longrightarrow>
        un_src s = s\<lparr>inline := Some (fmt un_src_template [u]), src := None\<rparr>"
    by (simp add: un_src_def)
  then show ?thesis
    unfolding un_src_loader
    using un_src_exactly_one [of s] wrap_emterpreter_one [of settings s] wrap_meminit_one [of mfile s]
      wrap_separate_asm_one [of asm_target asm_mods s] wrap_wasm_one [of wasm_binary_target s]
      html_script_one [of shell options settings wjs mods stem tb at wt mf script]
      html_script_returns [of shell options mf settings mods wjs stem tb at wt]
      replacement_ok [of script quote]
    by (simp add: un_src_def)
qed

theorem script_source_exactly_one_witness:
  "exactly_one \<lparr>src = Some ''a.out.js'', inline = None\<rparr>
   \<and> exactly_one (un_src \<lparr>src = Some ''a.out.js'', inline = None\<rparr>)
   \<and> exactly_one (wrap_wasm ''a.out.wasm'' \<lparr>src = Some ''a.out.js'', inline = None\<rparr>)
   \<and> src \<lparr>src = None, inline = Some ''run();''\<rparr> = None
   \<and> un_src \<lparr>src = None, inline = Some ''run();''\<rparr> = \<lparr>src = None, inline = Some ''run();''\<rparr>
   \<and> contains ''<html>{{{ SCRIPT }}}</html>'' ''{{{ SCRIPT }}}''
   \<and> (\<exists>script.
         html_script ''<html>{{{ SCRIPT }}}</html>''
           \<lparr>proxy_to_worker = False, memory_init_file = True, separate_asm = False\<rparr>
           example_settings
           (\<lambda>n. n) [] (''a.out'' @ ''.js'') ''a.out'' ''a.out.asm.js'' ''a.out.wasm''
           (Some ''a.out.html.mem'') = Inr script
         \<and> exactly_one script \<and> (\<exists>r. replacement (\<lambda>n. n) script = Inr r))"
proof -
  let ?s = "\<lparr>src = Some ''a.out.js'', inline = None\<rparr>"
  let ?t = "\<lparr>src = None, inline = Some ''run();''\<rparr>"
  let ?sh = "''<html>{{{ SCRIPT }}}</html>''"
  let ?o = "\<lparr>proxy_to_worker = False, memory_init_file = True, separate_asm = False\<rparr>"
  have h1: "exactly_one ?s" by (simp add: exactly_one_def)
  have h2: "src ?t = None" by simp
  have h3: "contains ?sh ''{{{ SCRIPT }}}''" by simp
  have h4: "memory_init_file ?o \<longrightarrow> Some ''a.out.html.mem'' \<noteq> None" by simp
  have h5: "no_separate_asm ?o example_settings \<and> \<not> proxy_to_worker ?o \<longrightarrow> ([]::string list) = []" by simp
  note a = script_source_exactly_one [where s = ?s and wasm_binary_target = "''a.out.wasm''"
      and shell = ?sh and options = ?o and settings = example_settings and wjs = "\<lambda>n. n" and mods = "[]"
      and stem = "''a.out''" and tb = "''a.out''" and at = "''a.out.asm.js''" and wt = "''a.out.wasm''"
      and mf = "Some ''a.out.html.mem''" and quote = "\<lambda>n. n"]
  note b = script_source_exactly_one [where s = ?t]
  from a h3 h4 h5 obtain script where
    r: "html_script ?sh ?o example_settings (\<lambda>n. n) [] (''a.out'' @ ''.js'') ''a.out'' ''a.out.asm.js''
          ''a.out.wasm'' (Some ''a.out.html.mem'') = Inr script" by blast
  from a [where script = script] r
  have c: "exactly_one script \<and> (\<exists>r. replacement (\<lambda>n. n) script = Inr r)" by blast
  from a h1 have d: "exactly_one (un_src ?s) \<and> exactly_one (wrap_wasm ''a.out.wasm'' ?s)" by blast
  from b h2 have e: "un_src ?t = ?t" by blast
  show ?thesis using h1 h2 h3 r c d e by (simp del: contains.simps)
qed


section \<open>Properties of the resolver\<close>

subsection \<open>\<open>add_library\<close> visits every module at most once and always returns\<close>

lemma add_library_mono:
  "add_library R lib st = Inr st' \<Longrightarrow> already_included st \<subseteq> already_included st'"
  "add_dependencies R ds st = Inr st' \<Longrightarrow> already_included st \<subseteq> already_included st'"
proof (induction R lib st and R ds st arbitrary: st' and st' rule: add_library_add_dependencies.induct)
  case (1 R lib st)
  then show ?case by (auto split: if_splits)
next
  case (2 R st)
  then show ?case by simp
next
  case (3 R d ds st)
  from 3(3) obtain l st1 where l: "system_libs_map (libs R) d = Some l"
    and a: "add_library R l st = Inr st1" and b: "add_dependencies R ds st1 = Inr st'"
    by (auto split: option.splits sum.splits)
  from 3(1) [OF l a] 3(2) [OF l a b] show ?case by blast
qed

lemma add_library_includes:
  "add_library R lib st = Inr st' \<Longrightarrow> shortname lib \<in> already_included st'"
proof (cases "shortname lib \<in> already_included st")
  case True
  assume "add_library R lib st = Inr st'"
  with True show ?thesis by simp
next
  case False
  assume "add_library R lib st = Inr st'"
  with False have "add_dependencies R (deps lib) (include_library R lib st) = Inr st'"
    by simp
  from add_library_mono(2) [OF this] show ?thesis by auto
qed

lemma add_library_returns:
  "deps_registered R \<Longrightarrow> set (deps lib) \<subseteq> {d. system_libs_map (libs R) d \<noteq> None} \<Longrightarrow>
     \<exists>st'. add_library R lib st = Inr st'"
  "deps_registered R \<Longrightarrow> set ds \<subseteq> {d. system_libs_map (libs R) d \<noteq> None} \<Longrightarrow>
     \<exists>st'. add_dependencies R ds st = Inr st'"
proof (induction R lib st and R ds st rule: add_library_add_dependencies.induct)
  case (1 R lib st)
  then show ?case by auto
next
  case (2 R st)
  then show ?case by simp
next
  case (3 R d ds st)
  from 3(4) obtain l where l: "system_libs_map (libs R) d = Some l" by auto
  then have "l \<in> set (libs R)" by (auto dest: system_libs_map_Some)
  with 3(3) have "set (deps l) \<subseteq> {d. system_libs_map (libs R) d \<noteq> None}"
    by (auto simp: deps_registered_def)
  from 3(1) [OF l 3(3) this] obtain st1 where a: "add_library R l st = Inr st1" ..
  from 3(2) [OF l a 3(3)] 3(4) obtain st' where "add_dependencies R ds st1 = Inr st'" by auto
  with l a show ?case by simp
qed

lemma add_library_count:
  "finite (already_included st) \<Longrightarrow> add_library R lib st = Inr st' \<Longrightarrow>
     finite (already_included st')
     \<and> length (libs_to_link st') + card (already_included st)
       = length (libs_to_link st) + card (already_included st')"
  "finite (already_included st) \<Longrightarrow> add_dependencies R ds st = Inr st' \<Longrightarrow>
     finite (already_included st')
     \<and> length (libs_to_link st') + card (already_included st)
       = length (libs_to_link st) + card (already_included st')"
proof (induction R lib st and R ds st arbitrary: st' and st' rule: add_library_add_dependencies.induct)
  case (1 R lib st)
  show ?case
  proof (cases "shortname lib \<in> already_included st")
    case True
    with 1(2,3) show ?thesis by simp
  next
    case False
    let ?s1 = "include_library R lib st"
    from False 1(3) have call: "add_dependencies R (deps lib) ?s1 = Inr st'" by simp
    have fin: "finite (already_included ?s1)" using 1(2) by simp
    have c1: "card (already_included ?s1) = Suc (card (already_included st))"
      using False 1(2) by simp
    have l1: "length (libs_to_link ?s1) = Suc (length (libs_to_link st))"
      by (simp add: include_library_def Let_def)
    from 1(1) [OF False fin call] c1 l1 show ?thesis by simp
  qed
next
  case (2 R st)
  then show ?case by simp
next
  case (3 R d ds st)
  from 3(4) obtain l st1 where l: "system_libs_map (libs R) d = Some l"
    and a: "add_library R l st = Inr st1" and b: "add_dependencies R ds st1 = Inr st'"
    by (auto split: option.splits sum.splits)
  from 3(1) [OF l 3(3) a] have s1: "finite (already_included st1)"
    "length (libs_to_link st1) + card (already_included st)
       = length (libs_to_link st) + card (already_included st1)" by auto
  from 3(2) [OF l a s1(1) b] s1(2) show ?case by simp
qed

text \<open>
  C6, as the code has it. \<open>add_library\<close> has no cycle check: it is a total function, and on
  every table whose declared dependencies are all registered, cyclic or not, it returns
  normally, having included the module, kept what was included, and added one link entry for
  each module it newly included (so none is visited twice).
\<close>

theorem add_library_ignores_cycles:
  assumes "deps_registered R" and "lib \<in> set (libs R)" and "finite (already_included st)"
  shows "\<exists>st'. add_library R lib st = Inr st'
           \<and> shortname lib \<in> already_included st'
           \<and> already_included st \<subseteq> already_included st'
           \<and> length (libs_to_link st') + card (already_included st)
             = length (libs_to_link st) + card (already_included st')"
proof -
  from assms(1,2) have "set (deps lib) \<subseteq> {d. system_libs_map (libs R) d \<noteq> None}"
    by (auto simp: deps_registered_def)
  from add_library_returns(1) [OF assms(1) this]
  obtain st' where r: "add_library R lib st = Inr st'" ..
  from add_library_includes [OF r] add_library_mono(1) [OF r] add_library_count(1) [OF assms(3) r] r
  show ?thesis by blast
qed
theorem add_library_ignores_cycles_witness:
  "deps_registered example_resolver
   \<and> example_libc \<in> set (libs example_resolver)
   \<and> finite (already_included empty_link_state)
   \<and> (\<exists>st'. add_library example_resolver example_libc empty_link_state = Inr st'
          \<and> shortname example_libc \<in> already_included st'
          \<and> already_included empty_link_state \<subseteq> already_included st'
          \<and> length (libs_to_link st') + card (already_included empty_link_state)
            = length (libs_to_link empty_link_state) + card (already_included st'))"
proof -
  have h1: "deps_registered example_resolver" by code_simp
  have h2: "example_libc \<in> set (libs example_resolver)" by code_simp
  have h3: "finite (already_included empty_link_state)" by (simp add: empty_link_state_def)
  from add_library_ignores_cycles [OF h1 h2 h3] h1 h2 h3 show ?thesis by blast
qed

text \<open>
  C6, as the claim states it, fails on the table of the source itself: \<open>libc\<close> depends on
  \<open>libcompiler_rt\<close> and \<open>libcompiler_rt\<close> on \<open>libc\<close>, and \<open>calculate\<close> returns the link line
  with no error.
\<close>

theorem dependency_cycle_counterexample:
  "map_option deps (system_libs_map (system_libs example_settings example_symbol_files ''libdlmalloc'') ''libc'')
     = Some [''libcompiler_rt'']
   \<and> map_option deps
        (system_libs_map (system_libs example_settings example_symbol_files ''libdlmalloc'') ''libcompiler_rt'')
     = Some [''libc'']
   \<and> calculate example_settings example_symbol_files [] None None example_nm example_cache
        example_abspath example_iteration [] []
     = ([LlvmNm [], CacheGet ''libdlmalloc.bc'', CacheGet ''libpthreads_stub.bc'', CacheGet ''libc.bc'',
         CacheGet ''libcompiler_rt.a''],
        Inr [''/cache/libdlmalloc.bc'', ''/cache/libpthreads_stub.bc'', ''/cache/libc.bc'',
             ''/cache/libcompiler_rt.a''])"
  by code_simp


subsection \<open>A forced library that is not registered\<close>

lemma system_libs_map_None: "system_libs_map ls n = None \<longleftrightarrow> n \<notin> shortname ` set ls"
  by (auto simp: system_libs_map_def find_None_iff)

lemma shortname_Library [simp]: "shortname (Library n s c sy d ne) = n"
  by (simp add: Library_def)

lemma always_include_registered:
  "lib \<in> set (always_include S m) \<Longrightarrow> system_libs_map (system_libs S F m) lib \<noteq> None"
  unfolding system_libs_map_None
  by (auto simp: always_include_def system_libs_def split: if_splits)

lemma find_Some_ex: "\<exists>x \<in> set xs. P x \<Longrightarrow> \<exists>y. find P xs = Some y"
  by (cases "find P xs") (auto simp: find_None_iff)

lemma calculate_invalid_forced:
  assumes "malloc_name S = Inr m"
    and "find (\<lambda>lib. system_libs_map (system_libs S F m) lib = None)
           (iteration (forced_names (system_libs S F m) force forced)) = Some bad"
  shows "calculate S F deps_info only force llvm_nm cache abspath iteration temp_files forced
         = ([LlvmNm (map abspath (if truthy only then [] else temp_files))],
            Inl (ExitWithError (''invalid forced library: '' @ bad)))"
proof -
  let ?R = "make_resolver S F deps_info only force llvm_nm cache abspath temp_files forced m"
  have a: "\<not> (\<exists>lib \<in> set (always ?R). system_libs_map (libs ?R) lib = None)"
    using always_include_registered [of _ S m F] by (auto simp: make_resolver_def)
  have b: "find (\<lambda>lib. system_libs_map (libs ?R) lib = None) (iteration (force_include ?R)) = Some bad"
    using assms(2) by (simp add: make_resolver_def)
  show ?thesis
    unfolding calculate_def Let_def using assms(1) a b by simp
qed

lemma calculate_invalid_malloc:
  "malloc_name S = Inl e \<Longrightarrow>
   calculate S F deps_info only force llvm_nm cache abspath iteration temp_files forced
   = ([LlvmNm (map abspath (if truthy only then [] else temp_files))], Inl e)"
  by (simp add: calculate_def Let_def)

text \<open>
  C3, as the code has it. When the allocator setting is valid and a forced name is not in the
  table, \<open>calculate\<close> ends with the fatal error \<open>invalid forced library\<close> for one of the forced
  names that are not in the table: the one that the iteration of the set \<open>force_include\<close>
  meets first. The only event before the error is the symbol scan of the compiled files, on
  their absolute paths: no library has been looked up in the cache or built. When the allocator
  setting is not valid, \<open>calculate\<close> ends with the allocator's error instead, after the same
  scan.
\<close>

theorem invalid_forced_library_aborts:
  "(malloc_name S = Inr m
      \<and> set (iteration (forced_names (system_libs S F m) force forced))
        = set (forced_names (system_libs S F m) force forced)
      \<and> (\<exists>n \<in> set (forced_names (system_libs S F m) force forced).
            system_libs_map (system_libs S F m) n = None) \<longrightarrow>
      (\<exists>bad. bad \<in> set (forced_names (system_libs S F m) force forced)
          \<and> system_libs_map (system_libs S F m) bad = None
          \<and> calculate S F deps_info only force llvm_nm cache abspath iteration temp_files forced
            = ([LlvmNm (map abspath (if truthy only then [] else temp_files))],
               Inl (ExitWithError (''invalid forced library: '' @ bad)))))
   \<and> (malloc_name S = Inl e \<longrightarrow>
        calculate S F deps_info only force llvm_nm cache abspath iteration temp_files forced
        = ([LlvmNm (map abspath (if truthy only then [] else temp_files))], Inl e))"
proof (intro conjI impI)
  let ?xs = "forced_names (system_libs S F m) force forced"
  let ?P = "\<lambda>lib. system_libs_map (system_libs S F m) lib = None"
  assume h: "malloc_name S = Inr m \<and> set (iteration ?xs) = set ?xs \<and> (\<exists>n \<in> set ?xs. ?P n)"
  then have "\<exists>n \<in> set (iteration ?xs). ?P n" by simp
  then obtain bad where f: "find ?P (iteration ?xs) = Some bad"
    using find_Some_ex [of "iteration ?xs" ?P] by blast
  from find_SomeD [OF f] h have "bad \<in> set ?xs" and "?P bad" by simp_all
  moreover from h have m: "malloc_name S = Inr m" by simp
  have "calculate S F deps_info only force llvm_nm cache abspath iteration temp_files forced
        = ([LlvmNm (map abspath (if truthy only then [] else temp_files))],
           Inl (ExitWithError (''invalid forced library: '' @ bad)))"
    by (rule calculate_invalid_forced [where iteration = iteration, OF m f])
  ultimately show "\<exists>bad. bad \<in> set ?xs \<and> ?P bad
      \<and> calculate S F deps_info only force llvm_nm cache abspath iteration temp_files forced
        = ([LlvmNm (map abspath (if truthy only then [] else temp_files))],
           Inl (ExitWithError (''invalid forced library: '' @ bad)))"
    by blast
next
  assume "malloc_name S = Inl e"
  then show "calculate S F deps_info only force llvm_nm cache abspath iteration temp_files forced
        = ([LlvmNm (map abspath (if truthy only then [] else temp_files))], Inl e)"
    by (rule calculate_invalid_malloc)
qed

theorem invalid_forced_library_aborts_witness:
  "malloc_name example_settings = Inr ''libdlmalloc''
   \<and> set (example_iteration
          (forced_names (system_libs example_settings example_symbol_files ''libdlmalloc'') None
             [''libx'', ''libc'', ''liby'']))
     = set (forced_names (system_libs example_settings example_symbol_files ''libdlmalloc'') None
             [''libx'', ''libc'', ''liby''])
   \<and> system_libs_map (system_libs example_settings example_symbol_files ''libdlmalloc'') ''liby'' = None
   \<and> (\<exists>bad. bad \<in> set [''libx'', ''libc'', ''liby'']
          \<and> system_libs_map (system_libs example_settings example_symbol_files ''libdlmalloc'') bad = None
          \<and> calculate example_settings example_symbol_files [] None None example_nm example_cache
               example_abspath example_iteration [''hello.o''] [''libx'', ''libc'', ''liby'']
             = ([LlvmNm [''/work/hello.o'']], Inl (ExitWithError (''invalid forced library: '' @ bad))))"
proof -
  let ?ls = "system_libs example_settings example_symbol_files ''libdlmalloc''"
  have x: "forced_names ?ls None [''libx'', ''libc'', ''liby''] = [''libx'', ''libc'', ''liby'']"
    by (simp add: forced_names_def)
  have h1: "malloc_name example_settings = Inr ''libdlmalloc''" by code_simp
  have h2: "set (example_iteration (forced_names ?ls None [''libx'', ''libc'', ''liby'']))
            = set (forced_names ?ls None [''libx'', ''libc'', ''liby''])"
    by (simp add: example_iteration_def)
  have h3: "system_libs_map ?ls ''liby'' = None" by code_simp
  have h4: "\<exists>n \<in> set (forced_names ?ls None [''libx'', ''libc'', ''liby'']). system_libs_map ?ls n = None"
    unfolding x using h3 by simp
  have a: "map example_abspath (if truthy None then [] else [''hello.o'']) = [''/work/hello.o'']"
    by code_simp
  from invalid_forced_library_aborts [where S = example_settings and m = "''libdlmalloc''"
      and F = example_symbol_files and force = None and forced = "[''libx'', ''libc'', ''liby'']"
      and iteration = example_iteration and deps_info = "[]" and only = None
      and llvm_nm = example_nm and cache = example_cache and abspath = example_abspath
      and temp_files = "[''hello.o'']"] h1 h2 h4
  have "\<exists>bad. bad \<in> set (forced_names ?ls None [''libx'', ''libc'', ''liby''])
      \<and> system_libs_map ?ls bad = None
      \<and> calculate example_settings example_symbol_files [] None None example_nm example_cache
           example_abspath example_iteration [''hello.o''] [''libx'', ''libc'', ''liby'']
         = ([LlvmNm (map example_abspath (if truthy None then [] else [''hello.o'']))],
            Inl (ExitWithError (''invalid forced library: '' @ bad)))"
    by blast
  then have "\<exists>bad. bad \<in> set [''libx'', ''libc'', ''liby'']
      \<and> system_libs_map ?ls bad = None
      \<and> calculate example_settings example_symbol_files [] None None example_nm example_cache
           example_abspath example_iteration [''hello.o''] [''libx'', ''libc'', ''liby'']
         = ([LlvmNm [''/work/hello.o'']], Inl (ExitWithError (''invalid forced library: '' @ bad)))"
    unfolding x a .
  with h1 h2 h3 show ?thesis by (intro conjI)
qed

text \<open>
  C3, as the claim states it, fails: with a compiled file to scan, the abort comes after
  \<open>parallel_llvm_nm\<close> has been run on that file.
\<close>

theorem invalid_forced_library_counterexample:
  "calculate example_settings example_symbol_files [] None None example_nm example_cache
     example_abspath example_iteration [''hello.o''] [''libfoo'']
   = ([LlvmNm [''/work/hello.o'']], Inl (ExitWithError ''invalid forced library: libfoo''))"
  by code_simp


subsection \<open>The link order\<close>

lemma insort_key_False: "\<not> f x \<Longrightarrow> insort_key f x ys = x # ys"
  for f :: "'a \<Rightarrow> bool"
  by (cases ys) auto

lemma insort_key_True_all: "f x \<Longrightarrow> \<forall>y \<in> set ys. f y \<Longrightarrow> insort_key f x ys = x # ys"
  for f :: "'a \<Rightarrow> bool"
  by (cases ys) auto

lemma insort_key_True_skip:
  "f x \<Longrightarrow> \<forall>y \<in> set xs. \<not> f y \<Longrightarrow> insort_key f x (xs @ ys) = xs @ insort_key f x ys"
  for f :: "'a \<Rightarrow> bool"
  by (induction xs) auto

lemma sort_key_bool: "sort_key f xs = filter (\<lambda>x. \<not> f x) xs @ filter f xs"
  for f :: "'a \<Rightarrow> bool"
proof (induction xs)
  case Nil
  then show ?case by simp
next
  case (Cons x xs)
  show ?case
  proof (cases "f x")
    case True
    have "insort_key f x (filter (\<lambda>x. \<not> f x) xs @ filter f xs)
          = filter (\<lambda>x. \<not> f x) xs @ insort_key f x (filter f xs)"
      using True by (intro insort_key_True_skip) auto
    also have "insort_key f x (filter f xs) = x # filter f xs"
      using True by (intro insort_key_True_all) auto
    finally show ?thesis using True Cons by simp
  next
    case False
    then show ?thesis using Cons by (simp add: insort_key_False)
  qed
qed

lemma endswith_abi_not_archive: "endswith s ''libc++abi.bc'' \<Longrightarrow> \<not> endswith s ''.a''"
proof
  assume "endswith s ''libc++abi.bc''" and "endswith s ''.a''"
  then obtain u v where "s = u @ ''libc++abi.bc''" and "s = v @ ''.a''"
    by (auto simp: endswith_def Sublist.suffix_def)
  then have "last (u @ ''libc++abi.bc'') = last (v @ ''.a'')" by simp
  then show False by simp
qed

lemma whole_archive_files:
  "\<forall>x \<in> set ls. \<not> is_flag (fst x) \<Longrightarrow>
     filter (\<lambda>a. \<not> is_flag a) (whole_archive ls g) = map fst ls"
proof (induction ls arbitrary: g)
  case Nil
  then show ?case by (simp add: is_flag_def)
next
  case (Cons x ls)
  obtain name need_whole_archive where x: "x = (name, need_whole_archive)" by (cases x)
  from Cons.prems have rest: "\<forall>x \<in> set ls. \<not> is_flag (fst x)" and name: "\<not> is_flag name"
    by (auto simp: x)
  have flags: "is_flag ''--whole-archive''" "is_flag ''--no-whole-archive''"
    by (simp_all add: is_flag_def)
  show ?case
    unfolding x whole_archive.simps Let_def
    using Cons.IH [OF rest] name flags by simp
qed

text \<open>
  After the two sorts the link entries are, in this order and each group in the order of
  inclusion: the files that end neither in \<open>.a\<close> nor in \<open>libc++abi.bc\<close>, the archives
  (\<open>.a\<close>), and the files that end in \<open>libc++abi.bc\<close>. The link line has these files in this
  order, with the whole-archive flags between them.
\<close>

lemma link_order_groups:
  "link_order ls =
     filter (\<lambda>x. \<not> endswith (fst x) ''.a'' \<and> \<not> endswith (fst x) ''libc++abi.bc'') ls
     @ filter (\<lambda>x. endswith (fst x) ''.a'') ls
     @ filter (\<lambda>x. endswith (fst x) ''libc++abi.bc'') ls
   \<and> ((\<forall>x \<in> set ls. \<not> is_flag (fst x)) \<longrightarrow>
        filter (\<lambda>a. \<not> is_flag a) (whole_archive (link_order ls) False) = map fst (link_order ls))"
proof -
  have 1: "filter (\<lambda>x. \<not> endswith (fst x) ''libc++abi.bc'') (filter (\<lambda>x. endswith (fst x) ''.a'') ls)
           = filter (\<lambda>x. endswith (fst x) ''.a'') ls"
    by (rule filter_True) (auto dest: endswith_abi_not_archive)
  have 2: "filter (\<lambda>x. endswith (fst x) ''libc++abi.bc'') (filter (\<lambda>x. endswith (fst x) ''.a'') ls) = []"
    by (auto simp: filter_empty_conv dest: endswith_abi_not_archive)
  have 3: "filter (\<lambda>x. endswith (fst x) ''libc++abi.bc'') (filter (\<lambda>x. \<not> endswith (fst x) ''.a'') ls)
           = filter (\<lambda>x. endswith (fst x) ''libc++abi.bc'') ls"
    unfolding filter_filter by (rule filter_cong) (auto dest: endswith_abi_not_archive)
  have 4: "filter (\<lambda>x. \<not> endswith (fst x) ''libc++abi.bc'') (filter (\<lambda>x. \<not> endswith (fst x) ''.a'') ls)
           = filter (\<lambda>x. \<not> endswith (fst x) ''.a'' \<and> \<not> endswith (fst x) ''libc++abi.bc'') ls"
    unfolding filter_filter by (rule filter_cong) auto
  have order: "link_order ls =
     filter (\<lambda>x. \<not> endswith (fst x) ''.a'' \<and> \<not> endswith (fst x) ''libc++abi.bc'') ls
     @ filter (\<lambda>x. endswith (fst x) ''.a'') ls
     @ filter (\<lambda>x. endswith (fst x) ''libc++abi.bc'') ls"
    unfolding link_order_def sort_key_bool filter_append 1 2 3 4 by simp
  have "set (link_order ls) = set ls"
    by (simp add: link_order_def)
  then have "(\<forall>x \<in> set ls. \<not> is_flag (fst x)) \<longrightarrow>
        filter (\<lambda>a. \<not> is_flag a) (whole_archive (link_order ls) False) = map fst (link_order ls)"
    using whole_archive_files [of "link_order ls" False] by simp
  with order show ?thesis by blast
qed

text \<open>
  C5. The second sort looks for the file name \<open>libc++abi.bc\<close>. In a build with bitcode files
  that is the file of libc++abi, and it is last on the link line; in a build with object files
  as archives (\<open>WASM_OBJECT_FILES\<close>) the table gives libc++abi the file \<open>libc++abi.a\<close>, which
  the sort does not find: it stays among the archives, here second on the link line, before
  libc.
\<close>

theorem libcxxabi_archive_not_last:
  "snd (calculate example_settings example_symbol_files [] None None example_nm example_cache
          example_abspath example_iteration [''/tmp/hello.o''] [])
     = Inr [''/cache/libc.bc'', ''/cache/libdlmalloc.bc'', ''/cache/libpthreads_stub.bc'',
            ''/cache/libc++.a'', ''/cache/libcompiler_rt.a'', ''/cache/libc++abi.bc'']
   \<and> is_libcxxabi
        (last [''/cache/libc.bc'', ''/cache/libdlmalloc.bc'', ''/cache/libpthreads_stub.bc'',
               ''/cache/libc++.a'', ''/cache/libcompiler_rt.a'', ''/cache/libc++abi.bc''])
   \<and> snd (calculate (example_settings\<lparr>WASM_OBJECT_FILES := True\<rparr>) example_symbol_files [] None None
          example_nm example_cache example_abspath example_iteration [''/tmp/hello.o''] [])
     = Inr [''/cache/libc++.a'', ''/cache/libc++abi.a'', ''/cache/libc.a'', ''/cache/libcompiler_rt.a'',
            ''/cache/libdlmalloc.a'', ''/cache/libpthreads_stub.a'']
   \<and> list_ex is_libcxxabi
        [''/cache/libc++.a'', ''/cache/libc++abi.a'', ''/cache/libc.a'', ''/cache/libcompiler_rt.a'',
         ''/cache/libdlmalloc.a'', ''/cache/libpthreads_stub.a'']
   \<and> \<not> is_libcxxabi
        (last [''/cache/libc++.a'', ''/cache/libc++abi.a'', ''/cache/libc.a'', ''/cache/libcompiler_rt.a'',
               ''/cache/libdlmalloc.a'', ''/cache/libpthreads_stub.a''])"
  by code_simp


subsection \<open>Which modules the loop over the table includes\<close>

lemma dependency_of_included_mono:
  "dependency_of_included R inc n \<Longrightarrow> inc \<subseteq> inc' \<Longrightarrow> dependency_of_included R inc' n"
  by (auto simp: dependency_of_included_def)

lemma justified_insert:
  "justified R inc \<Longrightarrow> passed_by_loop R n \<or> dependency_of_included R inc n \<Longrightarrow>
   justified R (insert n inc)"
  unfolding justified_def
  by (blast intro: dependency_of_included_mono [where inc = inc and inc' = "insert n inc"])

lemma add_library_justified:
  "justified R (already_included st) \<Longrightarrow> lib \<in> set (libs R) \<Longrightarrow>
     passed_by_loop R (shortname lib) \<or> dependency_of_included R (already_included st) (shortname lib) \<Longrightarrow>
     add_library R lib st = Inr st' \<Longrightarrow> justified R (already_included st')"
  "justified R (already_included st) \<Longrightarrow> p \<in> set (libs R) \<Longrightarrow> shortname p \<in> already_included st \<Longrightarrow>
     set ds \<subseteq> set (deps p) \<Longrightarrow>
     add_dependencies R ds st = Inr st' \<Longrightarrow> justified R (already_included st')"
proof (induction R lib st and R ds st arbitrary: st' and p st' rule: add_library_add_dependencies.induct)
  case (1 R lib st)
  show ?case
  proof (cases "shortname lib \<in> already_included st")
    case True
    with 1(2,5) show ?thesis by simp
  next
    case False
    let ?s1 = "include_library R lib st"
    from False 1(5) have call: "add_dependencies R (deps lib) ?s1 = Inr st'" by simp
    have j: "justified R (already_included ?s1)"
      using justified_insert [OF 1(2) 1(4)] by simp
    show ?thesis
      by (rule 1(1) [OF False j 1(3) _ _ call]) simp_all
  qed
next
  case (2 R st)
  then show ?case by simp
next
  case (3 R d ds st)
  from 3(7) obtain l st1 where l: "system_libs_map (libs R) d = Some l"
    and a: "add_library R l st = Inr st1" and b: "add_dependencies R ds st1 = Inr st'"
    by (auto split: option.splits sum.splits)
  from system_libs_map_Some [OF l] have ld: "shortname l = d" and lin: "l \<in> set (libs R)" by auto
  have "dependency_of_included R (already_included st) (shortname l)"
    using 3(4,5,6) ld by (auto simp: dependency_of_included_def)
  then have j1: "justified R (already_included st1)"
    using 3(1) [OF l 3(3) lin _ a] by blast
  have "shortname p \<in> already_included st1"
    using add_library_mono(1) [OF a] 3(5) by auto
  then show ?case
    using 3(2) [OF l a j1 3(4) _ _ b] 3(6) by auto
qed

lemma include_loop_cases:
  assumes "include_loop R (lib # ls) st = Inr st'"
  obtains (skip) "include_loop R ls st = Inr st'"
  | (add) st1 where "add_library R lib st = Inr st1" and "include_loop R ls st1 = Inr st'"
      and "passed_by_loop_row R lib"
  using assms
  by (auto simp: Let_def passed_by_loop_row_def simp del: add_library.simps split: if_splits sum.splits)

lemma include_loop_mono:
  "include_loop R ls st = Inr st' \<Longrightarrow> already_included st \<subseteq> already_included st'"
proof (induction ls arbitrary: st)
  case Nil
  then show ?case by simp
next
  case (Cons lib ls)
  from Cons.prems show ?case
  proof (cases rule: include_loop_cases)
    case skip
    then show ?thesis by (rule Cons.IH)
  next
    case (add st1)
    from add_library_mono(1) [OF add(1)] Cons.IH [OF add(2)] show ?thesis by blast
  qed
qed

lemma include_loop_justified:
  "justified R (already_included st) \<Longrightarrow> set ls \<subseteq> set (libs R) \<Longrightarrow>
   include_loop R ls st = Inr st' \<Longrightarrow> justified R (already_included st')"
proof (induction ls arbitrary: st)
  case Nil
  then show ?case by simp
next
  case (Cons lib ls)
  from Cons.prems(2) have lin: "lib \<in> set (libs R)" and rest: "set ls \<subseteq> set (libs R)" by auto
  from Cons.prems(3) show ?case
  proof (cases rule: include_loop_cases)
    case skip
    from Cons.IH [OF Cons.prems(1) rest this] show ?thesis .
  next
    case (add st1)
    from add(3) lin have "passed_by_loop R (shortname lib)"
      by (auto simp: passed_by_loop_def passed_by_loop_row_def)
    with add_library_justified(1) [OF Cons.prems(1) lin _ add(1)]
    have "justified R (already_included st1)" by blast
    from Cons.IH [OF this rest add(2)] show ?thesis .
  qed
qed

lemma include_loop_includes:
  "lib \<in> set ls \<Longrightarrow> \<not> only_forced R \<Longrightarrow> residual_syms (symbolses R) lib \<noteq> [] \<Longrightarrow>
   include_loop R ls st = Inr st' \<Longrightarrow> shortname lib \<in> already_included st'"
proof (induction ls arbitrary: st)
  case Nil
  then show ?case by simp
next
  case (Cons x ls)
  show ?case
  proof (cases "x = lib")
    case True
    show ?thesis
    proof (cases "shortname lib \<in> already_included st")
      case yes: True
      from include_loop_mono [OF Cons.prems(4)] yes show ?thesis by auto
    next
      case no: False
      with Cons.prems True obtain st1 where a: "add_library R lib st = Inr st1"
        and b: "include_loop R ls st1 = Inr st'"
        by (auto simp: Let_def simp del: add_library.simps split: if_splits sum.splits)
      from add_library_includes [OF a] include_loop_mono [OF b] show ?thesis by auto
    qed
  next
    case False
    with Cons.prems(1) have lin: "lib \<in> set ls" by simp
    from Cons.prems(4) obtain st1 where "include_loop R ls st1 = Inr st'"
      by (cases rule: include_loop_cases) auto
    from Cons.IH [OF lin Cons.prems(2,3) this] show ?thesis .
  qed
qed

lemma include_loop_returns:
  "deps_registered R \<Longrightarrow> set ls \<subseteq> set (libs R) \<Longrightarrow> \<forall>l \<in> set ls. startswith (shortname l) ''lib'' \<Longrightarrow>
   \<exists>st'. include_loop R ls st = Inr st'"
proof (induction ls arbitrary: st)
  case Nil
  then show ?case by simp
next
  case (Cons lib ls)
  from Cons.prems have lin: "lib \<in> set (libs R)" by simp
  with Cons.prems(1) have "set (deps lib) \<subseteq> {d. system_libs_map (libs R) d \<noteq> None}"
    by (auto simp: deps_registered_def)
  from add_library_returns(1) [OF Cons.prems(1) this]
  obtain st1 where a: "add_library R lib st = Inr st1" ..
  from Cons.IH [OF Cons.prems(1)] Cons.prems(2,3)
  have "\<exists>st'. include_loop R ls st = Inr st'" "\<exists>st'. include_loop R ls st1 = Inr st'"
    by auto
  with a Cons.prems(3) show ?case by (auto simp: Let_def simp del: add_library.simps)
qed

lemma include_loop_only_if:
  assumes "include_loop R (libs R) \<lparr>already_included = {}, libs_to_link = [], trace = tr\<rparr> = Inr st'"
    and "n \<in> already_included st'" and "n \<notin> set (force_include R)" and "n \<notin> set (always R)"
  shows "(\<exists>l \<in> set (libs R). shortname l = n \<and> \<not> only_forced R \<and> residual_syms (symbolses R) l \<noteq> [])
         \<or> (\<exists>p \<in> set (libs R). shortname p \<in> already_included st' \<and> n \<in> set (deps p))"
proof -
  let ?st = "\<lparr>already_included = {}, libs_to_link = [], trace = tr\<rparr>"
  have "justified R (already_included ?st)"
    by (simp add: justified_def)
  from include_loop_justified [OF this _ assms(1)] have "justified R (already_included st')"
    by simp
  with assms(2) have "passed_by_loop R n \<or> dependency_of_included R (already_included st') n"
    by (auto simp: justified_def)
  then show ?thesis
  proof
    assume "passed_by_loop R n"
    then obtain l where "l \<in> set (libs R)" "shortname l = n" "passed_by_loop_row R l"
      by (auto simp: passed_by_loop_def)
    with assms(3,4) show ?thesis
      by (auto simp: passed_by_loop_row_def)
  next
    assume "dependency_of_included R (already_included st') n"
    then show ?thesis by (auto simp: dependency_of_included_def)
  qed
qed

text \<open>
  C1, as the code has it. For the loop over the table, started with nothing included: when the
  names of the table start with \<open>lib\<close> and every declared dependency is registered, the loop
  returns. When it returns, a module whose residual (its symbols that a scanned file leaves
  undefined, less those that a scanned file defines) is not empty is included, unless only
  forced libraries are wanted; and an included module that is neither forced nor always
  included has a non-empty residual or is a declared dependency of an included module.
\<close>

theorem symbol_driven_inclusion:
  "(deps_registered R \<and> (\<forall>l \<in> set (libs R). startswith (shortname l) ''lib'') \<longrightarrow>
      (\<exists>st'. include_loop R (libs R) \<lparr>already_included = {}, libs_to_link = [], trace = tr\<rparr> = Inr st'))
   \<and> (include_loop R (libs R) \<lparr>already_included = {}, libs_to_link = [], trace = tr\<rparr> = Inr st' \<longrightarrow>
        (lib \<in> set (libs R) \<and> \<not> only_forced R \<and> residual_syms (symbolses R) lib \<noteq> [] \<longrightarrow>
           shortname lib \<in> already_included st')
        \<and> (n \<in> already_included st' \<and> n \<notin> set (force_include R) \<and> n \<notin> set (always R) \<longrightarrow>
             (\<exists>l \<in> set (libs R). shortname l = n \<and> \<not> only_forced R \<and> residual_syms (symbolses R) l \<noteq> [])
             \<or> (\<exists>p \<in> set (libs R). shortname p \<in> already_included st' \<and> n \<in> set (deps p))))"
  using include_loop_returns [of R "libs R" "\<lparr>already_included = {}, libs_to_link = [], trace = tr\<rparr>"]
    include_loop_includes [of lib "libs R" R "\<lparr>already_included = {}, libs_to_link = [], trace = tr\<rparr>" st']
    include_loop_only_if [of R tr st' n]
  by blast

theorem symbol_driven_inclusion_witness:
  "deps_registered example_resolver
   \<and> list_all (\<lambda>l. startswith (shortname l) ''lib'') (libs example_resolver)
   \<and> (\<exists>st'. include_loop example_resolver (libs example_resolver)
                \<lparr>already_included = {}, libs_to_link = [], trace = []\<rparr> = Inr st'
          \<and> example_libcxx \<in> set (libs example_resolver)
          \<and> \<not> only_forced example_resolver
          \<and> residual_syms (symbolses example_resolver) example_libcxx \<noteq> []
          \<and> shortname example_libcxx \<in> already_included st'
          \<and> ''libc'' \<in> already_included st'
          \<and> ''libc'' \<notin> set (force_include example_resolver)
          \<and> ''libc'' \<notin> set (always example_resolver)
          \<and> ((\<exists>l \<in> set (libs example_resolver). shortname l = ''libc'' \<and> \<not> only_forced example_resolver
                  \<and> residual_syms (symbolses example_resolver) l \<noteq> [])
              \<or> (\<exists>p \<in> set (libs example_resolver). shortname p \<in> already_included st'
                    \<and> ''libc'' \<in> set (deps p))))"
proof -
  let ?R = example_resolver
  let ?st = "\<lparr>already_included = {}, libs_to_link = [], trace = []\<rparr>"
  have h1: "deps_registered ?R" by code_simp
  have h2: "list_all (\<lambda>l. startswith (shortname l) ''lib'') (libs ?R)" by code_simp
  then have h2': "\<forall>l \<in> set (libs ?R). startswith (shortname l) ''lib''"
    by (simp add: list_all_iff)
  note inst = symbol_driven_inclusion [where R = ?R and tr = "[]" and lib = example_libcxx and n = "''libc''"]
  from inst h1 h2' obtain st' where r: "include_loop ?R (libs ?R) ?st = Inr st'" by blast
  have h3: "example_libcxx \<in> set (libs ?R)" by code_simp
  have h4: "\<not> only_forced ?R" by code_simp
  have h5: "residual_syms (symbolses ?R) example_libcxx \<noteq> []" by code_simp
  have "case include_loop ?R (libs ?R) ?st of Inl e \<Rightarrow> False | Inr st' \<Rightarrow> ''libc'' \<in> already_included st'"
    by code_simp
  with r have h6: "''libc'' \<in> already_included st'" by simp
  have h7: "''libc'' \<notin> set (force_include ?R)" by code_simp
  have h8: "''libc'' \<notin> set (always ?R)" by code_simp
  from inst [where st' = st'] r h3 h4 h5 h6 h7 h8
  have c1: "shortname example_libcxx \<in> already_included st'"
    and c2: "(\<exists>l \<in> set (libs ?R). shortname l = ''libc'' \<and> \<not> only_forced ?R
                  \<and> residual_syms (symbolses ?R) l \<noteq> [])
              \<or> (\<exists>p \<in> set (libs ?R). shortname p \<in> already_included st' \<and> ''libc'' \<in> set (deps p))"
    by blast+
  from h1 h2 r h3 h4 h5 h6 h7 h8 c1 c2 show ?thesis by blast
qed

text \<open>
  C1, as the claim states it, fails: in the example build \<open>libc\<close> is neither forced nor always
  included and none of its symbols is needed, and it is included all the same, as a dependency
  of the thread stubs; \<open>calculate\<close> looks its file up in the cache and puts it on the link line.
\<close>

theorem symbol_driven_inclusion_counterexample:
  "example_libc \<in> set (libs example_resolver)
   \<and> shortname example_libc \<notin> set (force_include example_resolver)
   \<and> shortname example_libc \<notin> set (always example_resolver)
   \<and> residual_syms (symbolses example_resolver) example_libc = []
   \<and> (case include_loop example_resolver (libs example_resolver)
              \<lparr>already_included = {}, libs_to_link = [], trace = []\<rparr> of
         Inl e \<Rightarrow> False
       | Inr st' \<Rightarrow> shortname example_libc \<in> already_included st')
   \<and> calculate example_settings example_symbol_files [] None None example_nm example_cache
        example_abspath example_iteration [''/tmp/hello.o''] []
     = ([LlvmNm [''/tmp/hello.o''], CacheGet ''libc++.a'', CacheGet ''libc++abi.bc'', CacheGet ''libc.bc'',
         CacheGet ''libcompiler_rt.a'', CacheGet ''libdlmalloc.bc'', CacheGet ''libpthreads_stub.bc''],
        Inr [''/cache/libc.bc'', ''/cache/libdlmalloc.bc'', ''/cache/libpthreads_stub.bc'',
             ''/cache/libc++.a'', ''/cache/libcompiler_rt.a'', ''/cache/libc++abi.bc''])"
  by code_simp


section \<open>Properties of \<open>flush\<close>\<close>

lemma flush_unfold:
  "\<not> WASM_BACKEND (Settings_of E) \<Longrightarrow>
   flush E ttl self0 =
     (if length (queue (none_if_empty (drop_blacklisted self0))) > 0
         \<and> \<not> skipped E (queue (none_if_empty (drop_blacklisted self0)))
      then (case (if DEBUG E \<noteq> Some ''2'' \<or> length (queue (none_if_empty (drop_blacklisted self0))) < 2
                  then Inr (run_chunked E ttl (queue (none_if_empty (drop_blacklisted self0)))
                              (none_if_empty (drop_blacklisted self0)))
                  else flush_each E (queue (none_if_empty (drop_blacklisted self0)))
                         (extra_info (none_if_empty (drop_blacklisted self0)))
                         (none_if_empty (drop_blacklisted self0))) of
              Inl e \<Rightarrow> Inl e
            | Inr self \<Rightarrow> Inr ((flushed self)\<lparr>extra_info := Some []\<rparr>))
      else Inr ((none_if_empty (drop_blacklisted self0))\<lparr>extra_info := Some []\<rparr>))"
  by (subst flush.simps) (simp add: Let_def)

lemma flush_asserts: "flush E ttl self0 = Inr self' \<Longrightarrow> \<not> WASM_BACKEND (Settings_of E)"
  by (subst (asm) flush.simps) (auto simp: Let_def split: if_splits)

lemma queue_filtered [simp]:
  "queue (none_if_empty (drop_blacklisted self0)) = filter (\<lambda>p. p \<notin> set (blacklist self0)) (queue self0)"
  by (simp add: drop_blacklisted_def none_if_empty_def)

lemma blacklist_filtered [simp]:
  "blacklist (none_if_empty (drop_blacklisted self0)) = blacklist self0"
  by (simp add: drop_blacklisted_def none_if_empty_def)

lemma reset_filtered:
  "(none_if_empty (drop_blacklisted self0))\<lparr>extra_info := Some []\<rparr>
   = self0\<lparr>queue := filter (\<lambda>p. p \<notin> set (blacklist self0)) (queue self0), extra_info := Some []\<rparr>"
  by (simp add: drop_blacklisted_def none_if_empty_def)

lemma skipped_last: "skipped E q \<Longrightarrow> q = [''last'']"
  by (cases q) (auto simp: skipped_def)

lemma flush_returns:
  "\<not> WASM_BACKEND (Settings_of E) \<Longrightarrow> \<exists>self'. flush E ttl self0 = Inr self'"
  "\<not> WASM_BACKEND (Settings_of E) \<Longrightarrow> \<exists>self'. flush_each E ps extra self = Inr self'"
proof (induction E ttl self0 and E ps extra self rule: flush_flush_each.induct)
  case (1 E ttl self0)
  let ?s = "none_if_empty (drop_blacklisted self0)"
  show ?case
  proof (cases "0 < length (queue ?s) \<and> \<not> skipped E (queue ?s)
                \<and> \<not> (DEBUG E \<noteq> Some ''2'' \<or> length (queue ?s) < 2)")
    case True
    with 1(1) [OF refl 1(2) refl] 1(2)
    obtain s3 where "flush_each E (queue ?s) (extra_info ?s) ?s = Inr s3" by blast
    with True show ?thesis
      unfolding flush_unfold [OF 1(2)] by (simp del: queue_filtered)
  next
    case False
    then show ?thesis
      unfolding flush_unfold [OF 1(2)] by (auto simp del: queue_filtered)
  qed
next
  case (2 E extra self)
  then show ?case by simp
next
  case (3 E p ps extra self)
  from 3(1) [OF 3(3)] obtain s1 where a: "flush E p (self\<lparr>queue := [p]\<rparr>) = Inr s1" ..
  from 3(2) [OF a 3(3)] obtain s2 where "flush_each E ps extra (s1\<lparr>extra_info := extra\<rparr>) = Inr s2" ..
  with a show ?case by (simp del: flush.simps)
qed

lemma flush_result:
  assumes "flush E ttl self0 = Inr self'"
  shows "extra_info self' = Some []"
    and "queue self' = (if skipped E (filter (\<lambda>p. p \<notin> set (blacklist self0)) (queue self0))
                        then [''last''] else [])"
    and "skipped E (filter (\<lambda>p. p \<notin> set (blacklist self0)) (queue self0)) \<Longrightarrow>
         self' = self0\<lparr>queue := [''last''], extra_info := Some []\<rparr>"
proof -
  note nw = flush_asserts [OF assms]
  have noskip_empty: "\<not> skipped E []"
    by (simp add: skipped_def)
  show "extra_info self' = Some []"
    using assms unfolding flush_unfold [OF nw]
    by (auto simp: flushed_def split: if_splits sum.splits)
  show "queue self' = (if skipped E (filter (\<lambda>p. p \<notin> set (blacklist self0)) (queue self0))
                        then [''last''] else [])"
    using assms unfolding flush_unfold [OF nw]
    by (auto simp: flushed_def reset_filtered split: if_splits sum.splits dest: skipped_last)
  show "self' = self0\<lparr>queue := [''last''], extra_info := Some []\<rparr>"
    if "skipped E (filter (\<lambda>p. p \<notin> set (blacklist self0)) (queue self0))"
    using assms that skipped_last [OF that] unfolding flush_unfold [OF nw]
    by (simp add: reset_filtered)
qed

lemma flush_not_run:
  assumes "\<not> WASM_BACKEND (Settings_of E)"
    and "\<not> (0 < length (filter (\<lambda>p. p \<notin> set (blacklist self)) (queue self))
            \<and> \<not> skipped E (filter (\<lambda>p. p \<notin> set (blacklist self)) (queue self)))"
  shows "flush E ttl self
         = Inr (self\<lparr>queue := filter (\<lambda>p. p \<notin> set (blacklist self)) (queue self), extra_info := Some []\<rparr>)"
proof -
  have "\<not> (0 < length (queue (none_if_empty (drop_blacklisted self)))
           \<and> \<not> skipped E (queue (none_if_empty (drop_blacklisted self))))"
    using assms(2) by simp
  then have "flush E ttl self = Inr ((none_if_empty (drop_blacklisted self))\<lparr>extra_info := Some []\<rparr>)"
    unfolding flush_unfold [OF assms(1)] by (simp only: if_False)
  then show ?thesis by (simp only: reset_filtered)
qed

lemma flush_settled:
  assumes "\<not> WASM_BACKEND (Settings_of E)" and "extra_info self = Some []"
    and "queue self = [] \<or> (queue self = [''last''] \<and> ''last'' \<notin> set (blacklist self) \<and> skipped E [''last''])"
  shows "flush E ttl self = Inr self"
proof -
  from assms(3) have f: "filter (\<lambda>p. p \<notin> set (blacklist self)) (queue self) = queue self"
    by auto
  have same: "self\<lparr>queue := queue self, extra_info := Some []\<rparr> = self"
    using assms(2) by (cases self) simp
  have "\<not> (0 < length (filter (\<lambda>p. p \<notin> set (blacklist self)) (queue self))
           \<and> \<not> skipped E (filter (\<lambda>p. p \<notin> set (blacklist self)) (queue self)))"
    unfolding f using assms(3) by auto
  from flush_not_run [OF assms(1) this] show ?thesis
    unfolding f same .
qed

lemma flush_empty:
  assumes "\<not> WASM_BACKEND (Settings_of E)" and "queue self = []"
  shows "flush E ttl self = Inr (self\<lparr>extra_info := Some []\<rparr>)"
proof -
  have same: "self\<lparr>queue := [], extra_info := Some []\<rparr> = self\<lparr>extra_info := Some []\<rparr>"
    using assms(2) by (cases self) simp
  have "\<not> (0 < length (filter (\<lambda>p. p \<notin> set (blacklist self)) (queue self))
           \<and> \<not> skipped E (filter (\<lambda>p. p \<notin> set (blacklist self)) (queue self)))"
    using assms(2) by simp
  from flush_not_run [OF assms(1) this] show ?thesis
    using assms(2) same by simp
qed

lemma flush_idempotent:
  assumes "flush E ttl self0 = Inr self'"
  shows "flush E ttl' self' = Inr self'"
proof (rule flush_settled)
  show "\<not> WASM_BACKEND (Settings_of E)" by (rule flush_asserts [OF assms])
  show "extra_info self' = Some []" by (rule flush_result(1) [OF assms])
  show "queue self' = [] \<or> (queue self' = [''last''] \<and> ''last'' \<notin> set (blacklist self') \<and> skipped E [''last''])"
  proof (cases "skipped E (filter (\<lambda>p. p \<notin> set (blacklist self0)) (queue self0))")
    case True
    from skipped_last [OF True]
    have fl: "filter (\<lambda>p. p \<notin> set (blacklist self0)) (queue self0) = [''last'']" .
    then have "''last'' \<in> set (filter (\<lambda>p. p \<notin> set (blacklist self0)) (queue self0))" by simp
    then have nb: "''last'' \<notin> set (blacklist self0)" by simp
    from flush_result(3) [OF assms True] have "blacklist self' = blacklist self0" "queue self' = [''last'']"
      by simp_all
    with nb True fl show ?thesis by simp
  next
    case False
    with flush_result(2) [OF assms] show ?thesis by simp
  qed
qed

text \<open>
  C2, as the code has it. Unless the wasm backend is on (an assertion), \<open>flush\<close> returns. After
  it the extra-info table is the empty dictionary, and the queue is empty, except when
  \<open>ASM_JS\<close> is off and the queue, less the blacklisted passes, is the single pass \<open>last\<close>: then
  no pass runs and \<open>last\<close> stays queued. A second \<open>flush\<close> right after changes nothing. On an
  empty queue \<open>flush\<close> runs no pass and changes nothing but the extra-info table, which it
  resets.
\<close>

theorem flush_resets_and_is_idempotent:
  "(\<not> WASM_BACKEND (Settings_of E) \<longrightarrow> (\<exists>self'. flush E ttl self = Inr self'))
   \<and> (flush E ttl self = Inr self' \<longrightarrow>
        extra_info self' = Some []
        \<and> queue self' = (if skipped E (filter (\<lambda>p. p \<notin> set (blacklist self)) (queue self))
                          then [''last''] else [])
        \<and> flush E ttl' self' = Inr self')
   \<and> (\<not> WASM_BACKEND (Settings_of E) \<and> queue self = [] \<longrightarrow>
        flush E ttl self = Inr (self\<lparr>extra_info := Some []\<rparr>))"
  using flush_returns(1) [of E ttl self] flush_result(1,2) [of E ttl self self']
    flush_idempotent [of E ttl self self' ttl'] flush_empty [of E self ttl]
  by blast

theorem flush_resets_and_is_idempotent_witness:
  "\<not> WASM_BACKEND (Settings_of example_asmjs_env)
   \<and> (\<exists>self'. flush example_asmjs_env ''js_opts'' example_busy_optimizer = Inr self'
          \<and> extra_info self' = Some [] \<and> queue self' = []
          \<and> flush example_asmjs_env ''js_opts'' self' = Inr self')
   \<and> queue (example_optimizer\<lparr>queue := []\<rparr>) = []
   \<and> flush example_asmjs_env ''js_opts'' (example_optimizer\<lparr>queue := []\<rparr>)
     = Inr (example_optimizer\<lparr>queue := [], extra_info := Some []\<rparr>)"
proof -
  have h1: "\<not> WASM_BACKEND (Settings_of example_asmjs_env)" by code_simp
  have h2: "queue (example_optimizer\<lparr>queue := []\<rparr>) = []" by simp
  have h3: "\<not> skipped example_asmjs_env
              (filter (\<lambda>p. p \<notin> set (blacklist example_busy_optimizer)) (queue example_busy_optimizer))"
    by code_simp
  note a = flush_resets_and_is_idempotent [where E = example_asmjs_env and ttl = "''js_opts''"
      and self = example_busy_optimizer and ttl' = "''js_opts''"]
  note b = flush_resets_and_is_idempotent [where E = example_asmjs_env and ttl = "''js_opts''"
      and self = "example_optimizer\<lparr>queue := []\<rparr>"]
  from a h1 obtain self' where r: "flush example_asmjs_env ''js_opts'' example_busy_optimizer = Inr self'"
    by blast
  from a [where self' = self'] r h3
  have c: "extra_info self' = Some [] \<and> queue self' = []
           \<and> flush example_asmjs_env ''js_opts'' self' = Inr self'" by simp
  from b h1 h2 have d: "flush example_asmjs_env ''js_opts'' (example_optimizer\<lparr>queue := []\<rparr>)
     = Inr (example_optimizer\<lparr>queue := [], extra_info := Some []\<rparr>)" by blast
  from h1 h2 r c d show ?thesis by blast
qed

text \<open>
  C2, as the claim states it, fails: with \<open>ASM_JS\<close> off and the single pass \<open>last\<close> queued,
  \<open>flush\<close> runs nothing and the queue is not empty after it.
\<close>

theorem flush_queue_counterexample:
  "flush example_flush_env ''js_opts'' example_optimizer = Inr example_optimizer
   \<and> queue example_optimizer = [''last'']"
  by code_simp


section \<open>Properties of the response-file loop\<close>

lemma expands_iff: "read_response_files fs argv = Some out \<longleftrightarrow> expands fs argv out"
proof
  assume "read_response_files fs argv = Some out"
  then show "expands fs argv out"
  proof (rule read_response_files.raw_induct [rotated])
    fix rec :: "files \<Rightarrow> string list \<Rightarrow> (error + string list) option"
      and fs :: files and argv :: "string list" and out :: "error + string list"
    assume IH: "\<And>fs argv out. rec fs argv = Some out \<Longrightarrow> expands fs argv out"
      and eq: "(case find_response_file (drop 1 argv) 1 of
                  Inl e \<Rightarrow> Some (Inl e)
                | Inr None \<Rightarrow> Some (Inr argv)
                | Inr (Some index) \<Rightarrow>
                    (case read_response_file fs (argv ! index) of
                       Inl e \<Rightarrow> Some (Inl e)
                     | Inr extra_args \<Rightarrow>
                         rec fs (take index argv @ extra_args @ drop (Suc index) argv))) = Some out"
    show "expands fs argv out"
    proof (cases "find_response_file (drop 1 argv) 1")
      case (Inl e)
      with eq have "out = Inl e" by simp
      with Inl show ?thesis by (simp only: expands.empty_argument)
    next
      case (Inr found)
      show ?thesis
      proof (cases found)
        case None
        with Inr eq have "out = Inr argv" by simp
        with Inr [unfolded None] show ?thesis by (simp only: expands.no_response_file)
      next
        case (Some index)
        show ?thesis
        proof (cases "read_response_file fs (argv ! index)")
          case (Inl e)
          with Inr Some eq have "out = Inl e" by simp
          with Inr [unfolded Some] Inl show ?thesis by (simp only: expands.read_fails)
        next
          case r: (Inr extra_args)
          with Inr Some eq
          have "rec fs (take index argv @ extra_args @ drop (Suc index) argv) = Some out" by simp
          then have "expands fs (take index argv @ extra_args @ drop (Suc index) argv) out"
            by (rule IH)
          with Inr [unfolded Some] r show ?thesis by (rule expands.sliced_in)
        qed
      qed
    qed
  qed
next
  assume "expands fs argv out"
  then show "read_response_files fs argv = Some out"
    by induction (simp_all add: read_response_files.simps)
qed

lemma find_all_plain: "list_all plain xs \<Longrightarrow> find_response_file xs i = Inr None"
  by (induction xs arbitrary: i) (auto simp: plain_def)

lemma find_None_plain: "find_response_file xs i = Inr None \<Longrightarrow> list_all plain xs"
  by (induction xs arbitrary: i) (auto simp: plain_def split: if_splits)

lemma find_first_special:
  "list_all plain cl \<Longrightarrow> \<not> plain sp \<Longrightarrow>
   find_response_file (cl @ sp # rest) i = (if sp = [] then Inl IndexError else Inr (Some (i + length cl)))"
  by (induction cl arbitrary: i) (auto simp: plain_def)

lemma split_special:
  "list_all plain xs \<or> (\<exists>cl sp rest. xs = cl @ sp # rest \<and> list_all plain cl \<and> \<not> plain sp)"
proof (induction xs)
  case Nil
  then show ?case by simp
next
  case (Cons x xs)
  show ?case
  proof (cases "plain x")
    case False
    then have "x # xs = [] @ x # xs \<and> list_all plain [] \<and> \<not> plain x" by simp
    then show ?thesis by blast
  next
    case True
    from Cons show ?thesis
    proof
      assume "list_all plain xs"
      with True show ?thesis by simp
    next
      assume "\<exists>cl sp rest. xs = cl @ sp # rest \<and> list_all plain cl \<and> \<not> plain sp"
      then obtain cl sp rest where "xs = cl @ sp # rest" "list_all plain cl" "\<not> plain sp" by blast
      with True have "x # xs = (x # cl) @ sp # rest \<and> list_all plain (x # cl) \<and> \<not> plain sp" by simp
      then show ?thesis by blast
    qed
  qed
qed

lemma slice_at:
  "(a0 # cl @ t # rest) ! Suc (length cl) = t"
  "take (Suc (length cl)) (a0 # cl @ t # rest) = a0 # cl"
  "drop (Suc (Suc (length cl))) (a0 # cl @ t # rest) = rest"
  by (simp_all add: nth_append)

text \<open>One round of the loop, on an argument vector cut at its first argument that is not plain.\<close>

lemma first_special:
  assumes "list_all plain cl" and "\<not> plain sp"
  shows "find_response_file (drop 1 (a0 # cl @ sp # rest)) 1
         = (if sp = [] then Inl IndexError else Inr (Some (Suc (length cl))))"
  using find_first_special [OF assms, of rest 1] by simp

lemma round_empty:
  assumes "list_all plain cl"
  shows "expands fs (a0 # cl @ [] # rest) (Inl IndexError)"
proof -
  have "\<not> plain []" by (simp add: plain_def)
  from first_special [OF assms this, of a0 rest]
  have "find_response_file (drop 1 (a0 # cl @ [] # rest)) 1 = Inl IndexError" by simp
  then show ?thesis by (rule expands.empty_argument)
qed

lemma round_read_fails:
  assumes "list_all plain cl" and "\<not> plain sp" and "sp \<noteq> []" and "read_response_file fs sp = Inl e"
  shows "expands fs (a0 # cl @ sp # rest) (Inl e)"
proof (rule expands.read_fails)
  show "find_response_file (drop 1 (a0 # cl @ sp # rest)) 1 = Inr (Some (Suc (length cl)))"
    using first_special [OF assms(1,2), of a0 rest] assms(3) by simp
  show "read_response_file fs ((a0 # cl @ sp # rest) ! Suc (length cl)) = Inl e"
    using assms(4) by (simp only: slice_at)
qed

lemma round_sliced_in:
  assumes "list_all plain cl" and "\<not> plain sp" and "sp \<noteq> []"
    and "read_response_file fs sp = Inr extra_args"
    and "expands fs (a0 # cl @ extra_args @ rest) out"
  shows "expands fs (a0 # cl @ sp # rest) out"
proof (rule expands.sliced_in)
  show "find_response_file (drop 1 (a0 # cl @ sp # rest)) 1 = Inr (Some (Suc (length cl)))"
    using first_special [OF assms(1,2), of a0 rest] assms(3) by simp
  show "read_response_file fs ((a0 # cl @ sp # rest) ! Suc (length cl)) = Inr extra_args"
    using assms(4) by (simp only: slice_at)
  show "expands fs (take (Suc (length cl)) (a0 # cl @ sp # rest) @ extra_args
                    @ drop (Suc (Suc (length cl))) (a0 # cl @ sp # rest)) out"
    using assms(5) by (simp only: slice_at append_Cons append_assoc)
qed

lemma round_done:
  assumes "list_all plain xs"
  shows "expands fs (a0 # xs) (Inr (a0 # xs))"
proof (rule expands.no_response_file)
  show "find_response_file (drop 1 (a0 # xs)) 1 = Inr None"
    using find_all_plain [OF assms, of 1] by simp
qed

text \<open>What a round of the loop did, read back from the rule that applied.\<close>

lemma round_inversion:
  assumes "expands fs (a0 # cl @ sp # rest) out" and "list_all plain cl" and "\<not> plain sp"
  shows "(sp = [] \<and> out = Inl IndexError)
         \<or> (sp \<noteq> [] \<and> (\<exists>e. read_response_file fs sp = Inl e \<and> out = Inl e))
         \<or> (sp \<noteq> [] \<and> (\<exists>extra_args. read_response_file fs sp = Inr extra_args
                              \<and> expands fs (a0 # cl @ extra_args @ rest) out))"
  using assms(1)
proof (cases rule: expands.cases)
  case no_response_file
  with first_special [OF assms(2,3), of a0 rest] show ?thesis by (simp split: if_splits)
next
  case (empty_argument e)
  with first_special [OF assms(2,3), of a0 rest] show ?thesis by (simp split: if_splits)
next
  case (read_fails index e)
  with first_special [OF assms(2,3), of a0 rest]
  have "sp \<noteq> []" and "index = Suc (length cl)" by (simp_all split: if_splits)
  with read_fails show ?thesis by (simp add: slice_at)
next
  case (sliced_in index extra_args)
  with first_special [OF assms(2,3), of a0 rest]
  have "sp \<noteq> []" and "index = Suc (length cl)" by (simp_all split: if_splits)
  with sliced_in show ?thesis by (simp add: slice_at)
qed

text \<open>
  A response-file argument and the arguments read from its file give the same outcome,
  whatever stands before and after.
\<close>

lemma expands_file_to_args:
  assumes "expands fs argv out" and "argv = a0 # pre @ s # post"
    and "\<not> plain s" and "s \<noteq> []" and "read_response_file fs s = Inr toks"
  shows "expands fs (a0 # pre @ toks @ post) out"
  using assms(1,2)
proof (induction arbitrary: pre rule: expands.induct)
  case (no_response_file argv)
  from split_special [of pre] show ?case
  proof (elim disjE exE conjE)
    assume "list_all plain pre"
    from first_special [OF this assms(3), of a0 post] no_response_file assms(4)
    show ?thesis by simp
  next
    fix cl sp rest assume "pre = cl @ sp # rest" "list_all plain cl" "\<not> plain sp"
    with first_special [of cl sp a0 "rest @ s # post"] no_response_file
    show ?thesis by (simp split: if_splits)
  qed
next
  case (empty_argument argv e)
  from split_special [of pre] show ?case
  proof (elim disjE exE conjE)
    assume "list_all plain pre"
    from first_special [OF this assms(3), of a0 post] empty_argument assms(4)
    show ?thesis by simp
  next
    fix cl sp rest assume d: "pre = cl @ sp # rest" "list_all plain cl" "\<not> plain sp"
    with first_special [of cl sp a0 "rest @ s # post"] empty_argument
    have "sp = []" "e = IndexError" by (simp_all split: if_splits)
    with round_empty [OF d(2), of fs a0 "rest @ toks @ post"] d(1) show ?thesis by simp
  qed
next
  case (read_fails argv index e)
  from split_special [of pre] show ?case
  proof (elim disjE exE conjE)
    assume "list_all plain pre"
    from first_special [OF this assms(3), of a0 post] read_fails assms(4)
    have "index = Suc (length pre)" by simp
    with read_fails assms(5) show ?thesis by (simp add: slice_at)
  next
    fix cl sp rest assume d: "pre = cl @ sp # rest" "list_all plain cl" "\<not> plain sp"
    with first_special [of cl sp a0 "rest @ s # post"] read_fails
    have sp: "sp \<noteq> []" and "index = Suc (length cl)" by (simp_all split: if_splits)
    with read_fails d(1) have "read_response_file fs sp = Inl e" by (simp add: slice_at)
    from round_read_fails [OF d(2,3) sp this, of a0 "rest @ toks @ post"] d(1) show ?thesis by simp
  qed
next
  case (sliced_in argv index extra_args out)
  from split_special [of pre] show ?case
  proof (elim disjE exE conjE)
    assume p: "list_all plain pre"
    from first_special [OF this assms(3), of a0 post] sliced_in(1,5) assms(4)
    have i: "index = Suc (length pre)" by simp
    with sliced_in(2,5) assms(5) have "extra_args = toks" by (simp add: slice_at)
    with sliced_in(3,5) i show ?thesis by (simp add: slice_at)
  next
    fix cl sp rest assume d: "pre = cl @ sp # rest" "list_all plain cl" "\<not> plain sp"
    with first_special [of cl sp a0 "rest @ s # post"] sliced_in(1,5)
    have sp: "sp \<noteq> []" and i: "index = Suc (length cl)" by (simp_all split: if_splits)
    with sliced_in(2,5) d(1) have r: "read_response_file fs sp = Inr extra_args" by (simp add: slice_at)
    have "take index argv @ extra_args @ drop (Suc index) argv = a0 # (cl @ extra_args @ rest) @ s # post"
      using sliced_in(5) d(1) i by (simp add: slice_at)
    from sliced_in(4) [OF this] have "expands fs (a0 # cl @ extra_args @ rest @ toks @ post) out" by simp
    from round_sliced_in [OF d(2,3) sp r this] d(1) show ?thesis by simp
  qed
qed

lemma expands_args_to_file:
  assumes "expands fs argv out" and "argv = a0 # pre @ toks @ post"
    and "\<not> plain s" and "s \<noteq> []" and "read_response_file fs s = Inr toks"
  shows "expands fs (a0 # pre @ s # post) out"
  using assms(1,2)
proof (induction arbitrary: pre rule: expands.induct)
  case (no_response_file argv)
  from expands.no_response_file [OF no_response_file(1)] no_response_file(2)
  have whole: "expands fs (a0 # pre @ toks @ post) (Inr argv)" by simp
  from split_special [of pre] show ?case
  proof (elim disjE exE conjE)
    assume "list_all plain pre"
    from round_sliced_in [OF this assms(3,4,5) whole] show ?thesis .
  next
    fix cl sp rest assume "pre = cl @ sp # rest" "list_all plain cl" "\<not> plain sp"
    with first_special [of cl sp a0 "rest @ toks @ post"] no_response_file
    show ?thesis by (simp split: if_splits)
  qed
next
  case (empty_argument argv e)
  from expands.empty_argument [OF empty_argument(1)] empty_argument(2)
  have whole: "expands fs (a0 # pre @ toks @ post) (Inl e)" by simp
  from split_special [of pre] show ?case
  proof (elim disjE exE conjE)
    assume "list_all plain pre"
    from round_sliced_in [OF this assms(3,4,5) whole] show ?thesis .
  next
    fix cl sp rest assume d: "pre = cl @ sp # rest" "list_all plain cl" "\<not> plain sp"
    with first_special [of cl sp a0 "rest @ toks @ post"] empty_argument
    have "sp = []" "e = IndexError" by (simp_all split: if_splits)
    with round_empty [OF d(2), of fs a0 "rest @ s # post"] d(1) show ?thesis by simp
  qed
next
  case (read_fails argv index e)
  from expands.read_fails [OF read_fails(1,2)] read_fails(3)
  have whole: "expands fs (a0 # pre @ toks @ post) (Inl e)" by simp
  from split_special [of pre] show ?case
  proof (elim disjE exE conjE)
    assume "list_all plain pre"
    from round_sliced_in [OF this assms(3,4,5) whole] show ?thesis .
  next
    fix cl sp rest assume d: "pre = cl @ sp # rest" "list_all plain cl" "\<not> plain sp"
    with first_special [of cl sp a0 "rest @ toks @ post"] read_fails
    have sp: "sp \<noteq> []" and "index = Suc (length cl)" by (simp_all split: if_splits)
    with read_fails d(1) have "read_response_file fs sp = Inl e" by (simp add: slice_at)
    from round_read_fails [OF d(2,3) sp this, of a0 "rest @ s # post"] d(1) show ?thesis by simp
  qed
next
  case (sliced_in argv index extra_args out)
  from expands.sliced_in [OF sliced_in(1,2,3)] sliced_in(5)
  have whole: "expands fs (a0 # pre @ toks @ post) out" by simp
  from split_special [of pre] show ?case
  proof (elim disjE exE conjE)
    assume "list_all plain pre"
    from round_sliced_in [OF this assms(3,4,5) whole] show ?thesis .
  next
    fix cl sp rest assume d: "pre = cl @ sp # rest" "list_all plain cl" "\<not> plain sp"
    with first_special [of cl sp a0 "rest @ toks @ post"] sliced_in(1,5)
    have sp: "sp \<noteq> []" and i: "index = Suc (length cl)" by (simp_all split: if_splits)
    with sliced_in(2,5) d(1) have r: "read_response_file fs sp = Inr extra_args" by (simp add: slice_at)
    have "take index argv @ extra_args @ drop (Suc index) argv = a0 # (cl @ extra_args @ rest) @ toks @ post"
      using sliced_in(5) d(1) i by (simp add: slice_at)
    from sliced_in(4) [OF this] have "expands fs (a0 # cl @ extra_args @ rest @ s # post) out" by simp
    from round_sliced_in [OF d(2,3) sp r this] d(1) show ?thesis by simp
  qed
qed

lemma same_outcome: "(\<And>out. a = Some out \<longleftrightarrow> b = Some out) \<Longrightarrow> a = b"
  by (cases a; cases b) auto

lemma response_file_as_arguments:
  assumes "read_response_file fs (CHR ''@'' # f) = Inr toks"
  shows "read_response_files fs (a0 # pre @ (CHR ''@'' # f) # post)
         = read_response_files fs (a0 # pre @ toks @ post)"
proof -
  have s: "\<not> plain (CHR ''@'' # f)" "CHR ''@'' # f \<noteq> []" by (simp_all add: plain_def)
  have "read_response_files fs (a0 # pre @ (CHR ''@'' # f) # post) = Some out
        \<longleftrightarrow> read_response_files fs (a0 # pre @ toks @ post) = Some out" for out
    unfolding expands_iff
    using expands_file_to_args [OF _ refl s assms] expands_args_to_file [OF _ refl s assms]
    by blast
  then show ?thesis by (rule same_outcome)
qed

lemma expands_result_plain: "expands fs argv out \<Longrightarrow> out = Inr r \<Longrightarrow> list_all plain (drop 1 r)"
proof (induction rule: expands.induct)
  case (no_response_file argv)
  then show ?case by (auto dest: find_None_plain)
qed simp_all

lemma expands_unreadable:
  assumes "expands fs argv out" and "argv = a0 # pre @ s # post"
    and "\<not> plain s" and "s \<noteq> []" and "read_response_file fs s = Inl e"
  shows "\<exists>e'. out = Inl e'"
  using assms(1,2)
proof (induction arbitrary: pre rule: expands.induct)
  case (no_response_file argv)
  from split_special [of pre] show ?case
  proof (elim disjE exE conjE)
    assume "list_all plain pre"
    from first_special [OF this assms(3), of a0 post] no_response_file assms(4)
    show ?thesis by simp
  next
    fix cl sp rest assume "pre = cl @ sp # rest" "list_all plain cl" "\<not> plain sp"
    with first_special [of cl sp a0 "rest @ s # post"] no_response_file
    show ?thesis by (simp split: if_splits)
  qed
next
  case (empty_argument argv e)
  then show ?case by simp
next
  case (read_fails argv index e)
  then show ?case by simp
next
  case (sliced_in argv index extra_args out)
  from split_special [of pre] show ?case
  proof (elim disjE exE conjE)
    assume p: "list_all plain pre"
    from first_special [OF this assms(3), of a0 post] sliced_in(1,5) assms(4)
    have i: "index = Suc (length pre)" by simp
    with sliced_in(2,5) assms(5) show ?thesis by (simp add: slice_at)
  next
    fix cl sp rest assume d: "pre = cl @ sp # rest" "list_all plain cl" "\<not> plain sp"
    with first_special [of cl sp a0 "rest @ s # post"] sliced_in(1,5)
    have sp: "sp \<noteq> []" and i: "index = Suc (length cl)" by (simp_all split: if_splits)
    have "take index argv @ extra_args @ drop (Suc index) argv = a0 # (cl @ extra_args @ rest) @ s # post"
      using sliced_in(5) d(1) i by (simp add: slice_at)
    from sliced_in(4) [OF this] show ?thesis .
  qed
qed

lemma read_response_file_at:
  "read_response_file fs (CHR ''@'' # f)
   = (case read_file fs f of None \<Rightarrow> Inl (ResponseFileNotFound f) | Some args \<Rightarrow> shlex_split fs args)"
  by (simp add: read_response_file_def startswith_def)

lemma run_arguments_result:
  assumes "run_arguments fs None argv = Some (Inr (cxx, r))"
  shows "cxx = (''--emscripten-cxx'' \<in> set argv)
         \<and> read_response_files fs (filter (\<lambda>x. x \<noteq> ''--emscripten-cxx'') argv) = Some (Inr r)"
  using assms
  by (auto simp: run_arguments_def Let_def split: if_splits option.splits sum.splits)

text \<open>
  C7, as the code has it. An argument \<open>@f\<close> whose file can be read gives the same outcome as
  the arguments read from the file in its place, whatever stands before and after it, so that
  the arguments from the file are themselves expanded; when the loop ends normally no argument
  after the program name starts with \<open>@\<close>; with plain arguments around it and in its file,
  \<open>@f\<close> is replaced in place by the arguments of the file and the loop ends; and when the file
  does not exist, reading it raises the error that names it, the loop never ends normally, and
  with plain arguments before \<open>@f\<close> this error is the outcome. \<open>EMCC_CXX\<close> is decided by the
  command line as it is given: the loop reads the response files only after
  \<open>--emscripten-cxx\<close> has been looked for and taken out.
\<close>

theorem response_files_expand_in_place:
  "(read_response_file fs (CHR ''@'' # f) = Inr toks \<longrightarrow>
      read_response_files fs (a0 # pre @ (CHR ''@'' # f) # post)
      = read_response_files fs (a0 # pre @ toks @ post))
   \<and> (read_response_files fs argv = Some (Inr r) \<longrightarrow> list_all plain (drop 1 r))
   \<and> (read_response_file fs (CHR ''@'' # f) = Inr toks
        \<and> list_all plain pre \<and> list_all plain toks \<and> list_all plain post \<longrightarrow>
        read_response_files fs (a0 # pre @ (CHR ''@'' # f) # post) = Some (Inr (a0 # pre @ toks @ post)))
   \<and> (read_file fs f = None \<longrightarrow>
        read_response_file fs (CHR ''@'' # f) = Inl (ResponseFileNotFound f)
        \<and> read_response_files fs (a0 # pre @ (CHR ''@'' # f) # post) \<noteq> Some (Inr r)
        \<and> (list_all plain pre \<longrightarrow>
             read_response_files fs (a0 # pre @ (CHR ''@'' # f) # post)
             = Some (Inl (ResponseFileNotFound f))))
   \<and> (run_arguments fs None argv = Some (Inr (cxx, r)) \<longrightarrow>
        cxx = (''--emscripten-cxx'' \<in> set argv)
        \<and> read_response_files fs (filter (\<lambda>x. x \<noteq> ''--emscripten-cxx'') argv) = Some (Inr r))"
proof -
  have s: "\<not> plain (CHR ''@'' # f)" "CHR ''@'' # f \<noteq> []" by (simp_all add: plain_def)
  have p1: "read_response_files fs argv = Some (Inr r) \<longrightarrow> list_all plain (drop 1 r)"
    unfolding expands_iff using expands_result_plain [of fs argv "Inr r" r] by blast
  have p2: "read_response_files fs (a0 # pre @ (CHR ''@'' # f) # post) = Some (Inr (a0 # pre @ toks @ post))"
    if "read_response_file fs (CHR ''@'' # f) = Inr toks"
      and "list_all plain pre" and "list_all plain toks" and "list_all plain post"
  proof -
    from that(2,3,4) have "list_all plain (pre @ toks @ post)" by simp
    from round_done [OF this, of fs a0]
    have "expands fs (a0 # pre @ toks @ post) (Inr (a0 # pre @ toks @ post))" .
    from round_sliced_in [OF that(2) s that(1) this] show ?thesis
      unfolding expands_iff .
  qed
  have missing: "read_response_file fs (CHR ''@'' # f) = Inl (ResponseFileNotFound f)"
    if "read_file fs f = None"
    using that by (simp add: read_response_file_at)
  have p3: "read_response_files fs (a0 # pre @ (CHR ''@'' # f) # post) \<noteq> Some (Inr r)"
    if "read_file fs f = None"
    unfolding expands_iff
    using expands_unreadable [OF _ refl s missing [OF that], where out = "Inr r" and ?a0.0 = a0
        and pre = pre and post = post] by auto
  have p4: "read_response_files fs (a0 # pre @ (CHR ''@'' # f) # post)
            = Some (Inl (ResponseFileNotFound f))"
    if "read_file fs f = None" and "list_all plain pre"
    unfolding expands_iff
    using round_read_fails [OF that(2) s missing [OF that(1)]] .
  have p5: "run_arguments fs None argv = Some (Inr (cxx, r)) \<longrightarrow>
        cxx = (''--emscripten-cxx'' \<in> set argv)
        \<and> read_response_files fs (filter (\<lambda>x. x \<noteq> ''--emscripten-cxx'') argv) = Some (Inr r)"
    using run_arguments_result [of fs argv cxx r] by blast
  from response_file_as_arguments [of fs f toks a0 pre post] p1 p2 missing p3 p4 p5
  show ?thesis by blast
qed

theorem response_files_expand_in_place_witness:
  "read_response_file example_files ''@args.txt'' = Inr [''-O2'', ''-o'', ''out.bin'']
   \<and> read_response_files example_files [''emcc'', ''hello.c'', ''@args.txt'', ''-g'']
     = read_response_files example_files [''emcc'', ''hello.c'', ''-O2'', ''-o'', ''out.bin'', ''-g'']
   \<and> read_response_files example_files [''emcc'', ''hello.c'', ''@args.txt'', ''-g'']
     = Some (Inr [''emcc'', ''hello.c'', ''-O2'', ''-o'', ''out.bin'', ''-g''])
   \<and> list_all plain (drop 1 [''emcc'', ''hello.c'', ''-O2'', ''-o'', ''out.bin'', ''-g''])
   \<and> read_file example_files ''missing.rsp'' = None
   \<and> read_response_files example_files [''emcc'', ''hello.c'', ''@missing.rsp'', ''-g'']
     = Some (Inl (ResponseFileNotFound ''missing.rsp''))
   \<and> run_arguments example_files None [''emcc'', ''--emscripten-cxx'', ''@args.txt'']
     = Some (Inr (True, [''emcc'', ''-O2'', ''-o'', ''out.bin'']))
   \<and> read_response_files example_files [''emcc'', ''@args.txt''] = Some (Inr [''emcc'', ''-O2'', ''-o'', ''out.bin''])"
proof -
  have h1: "read_response_file example_files (CHR ''@'' # ''args.txt'') = Inr [''-O2'', ''-o'', ''out.bin'']"
    by (simp add: read_response_file_def startswith_def example_files_def)
  have h2: "list_all plain [''hello.c'']" "list_all plain [''-O2'', ''-o'', ''out.bin'']"
    "list_all plain [''-g'']"
    by (simp_all add: plain_def)
  have h3: "read_file example_files ''missing.rsp'' = None"
    by (simp add: example_files_def)
  note a = response_files_expand_in_place [where fs = example_files and f = "''args.txt''"
      and toks = "[''-O2'', ''-o'', ''out.bin'']" and ?a0.0 = "''emcc''" and pre = "[''hello.c'']"
      and post = "[''-g'']" and argv = "[''emcc'', ''hello.c'', ''@args.txt'', ''-g'']"
      and r = "[''emcc'', ''hello.c'', ''-O2'', ''-o'', ''out.bin'', ''-g'']"]
  note b = response_files_expand_in_place [where fs = example_files and f = "''missing.rsp''"
      and ?a0.0 = "''emcc''" and pre = "[''hello.c'']" and post = "[''-g'']"]
  from a h1 have c1: "read_response_files example_files (''emcc'' # [''hello.c''] @ (CHR ''@'' # ''args.txt'') # [''-g''])
     = read_response_files example_files (''emcc'' # [''hello.c''] @ [''-O2'', ''-o'', ''out.bin''] @ [''-g''])"
    by blast
  from a h1 h2 have c2: "read_response_files example_files (''emcc'' # [''hello.c''] @ (CHR ''@'' # ''args.txt'') # [''-g''])
     = Some (Inr (''emcc'' # [''hello.c''] @ [''-O2'', ''-o'', ''out.bin''] @ [''-g'']))"
    by blast
  then have c2': "read_response_files example_files [''emcc'', ''hello.c'', ''@args.txt'', ''-g'']
     = Some (Inr [''emcc'', ''hello.c'', ''-O2'', ''-o'', ''out.bin'', ''-g''])"
    by simp
  from a c2' have c3: "list_all plain (drop 1 [''emcc'', ''hello.c'', ''-O2'', ''-o'', ''out.bin'', ''-g''])"
    by blast
  from b h3 h2(1) have c4: "read_response_files example_files (''emcc'' # [''hello.c''] @ (CHR ''@'' # ''missing.rsp'') # [''-g''])
     = Some (Inl (ResponseFileNotFound ''missing.rsp''))"
    by blast
  have h5: "run_arguments example_files None [''emcc'', ''--emscripten-cxx'', ''@args.txt'']
     = Some (Inr (True, [''emcc'', ''-O2'', ''-o'', ''out.bin'']))"
    by (simp add: run_arguments_def read_response_files.simps read_response_file_def startswith_def
        example_files_def)
  have h6: "filter (\<lambda>x. x \<noteq> ''--emscripten-cxx'') [''emcc'', ''--emscripten-cxx'', ''@args.txt'']
     = [''emcc'', ''@args.txt'']"
    by simp
  note c = response_files_expand_in_place [where fs = example_files
      and argv = "[''emcc'', ''--emscripten-cxx'', ''@args.txt'']" and cxx = True
      and r = "[''emcc'', ''-O2'', ''-o'', ''out.bin'']"]
  from c h5 have "read_response_files example_files
       (filter (\<lambda>x. x \<noteq> ''--emscripten-cxx'') [''emcc'', ''--emscripten-cxx'', ''@args.txt''])
     = Some (Inr [''emcc'', ''-O2'', ''-o'', ''out.bin''])"
    by blast
  then have c5: "read_response_files example_files [''emcc'', ''@args.txt'']
     = Some (Inr [''emcc'', ''-O2'', ''-o'', ''out.bin''])"
    unfolding h6 .
  from h1 c1 c2' c3 h3 c4 h5 c5 show ?thesis by simp
qed

text \<open>
  C7, as the claim states it, fails for a flag that \<open>run\<close> reads before the loop: on the
  command line \<open>--emscripten-cxx\<close> sets \<open>EMCC_CXX\<close> and is taken out of the arguments; from a
  response file it comes too late, \<open>EMCC_CXX\<close> stays off and the flag stays among the
  arguments.
\<close>

theorem response_file_flag_counterexample:
  "run_arguments example_files None [''emcc'', ''--emscripten-cxx'', ''-O2'']
     = Some (Inr (True, [''emcc'', ''-O2'']))
   \<and> read_response_file example_files ''@cxx.rsp'' = Inr [''--emscripten-cxx'', ''-O2'']
   \<and> run_arguments example_files None [''emcc'', ''@cxx.rsp'']
     = Some (Inr (False, [''emcc'', ''--emscripten-cxx'', ''-O2'']))"
  by (simp add: run_arguments_def read_response_files.simps read_response_file_def startswith_def
      example_files_def)


section \<open>Properties of the memory initializer\<close>

lemma re_sub_once:
  "re_sub search f 1 text =
     (case search text of
        None \<Rightarrow> Inr (text, [])
      | Some (before, group1, after) \<Rightarrow>
          (case f group1 of
             Inl e \<Rightarrow> Inl e
           | Inr (new, written) \<Rightarrow>
               Inr (before @ new @ after, (case written of None \<Rightarrow> [] | Some bytes \<Rightarrow> [bytes]))))"
  by (simp split: option.splits sum.splits prod.splits)

lemma pop_zeros_last: "pop_zeros membytes \<noteq> [] \<Longrightarrow> last (pop_zeros membytes) \<noteq> 0"
proof -
  assume ne: "pop_zeros membytes \<noteq> []"
  let ?d = "dropWhile (\<lambda>b. b = 0) (rev membytes)"
  from ne have d: "?d \<noteq> []" by (simp add: pop_zeros_def)
  then have "hd ?d \<noteq> 0" using hd_dropWhile [of "\<lambda>b. b = 0" "rev membytes"] by simp
  moreover have "last (pop_zeros membytes) = hd ?d"
    using d by (simp add: pop_zeros_def last_rev)
  ultimately show ?thesis by simp
qed

lemma repl_written:
  assumes "repl S options gen mem s = Inr (new, Some bytes)"
  shows "memory_init_file options" and "bytes \<noteq> []" and "last bytes \<noteq> 0"
    and "\<exists>membytes. ints (split_on CHR '','' s) = Inr membytes \<and> bytes = pop_zeros membytes"
proof -
  from assms obtain membytes where m: "ints (split_on CHR '','' s) = Inr membytes"
    and b: "bytes = pop_zeros membytes" and ne: "pop_zeros membytes \<noteq> []"
    and o: "memory_init_file options"
    unfolding repl_def Let_def
    by (auto split: if_splits sum.splits)
  from o show "memory_init_file options" .
  from b ne show "bytes \<noteq> []" by simp
  from b ne show "last bytes \<noteq> 0" by (simp add: pop_zeros_last)
  from m b show "\<exists>membytes. ints (split_on CHR '','' s) = Inr membytes \<and> bytes = pop_zeros membytes"
    by blast
qed

lemma ints_empty_piece: "ints (split_on CHR '','' []) = Inr [0]"
  by (simp add: py_int_def strip_blanks_def is_digit_def decimal_def)

lemma repl_nothing_left:
  assumes "ints (split_on CHR '','' s) = Inr membytes" and "pop_zeros membytes = []"
  shows "repl S options gen mem s = Inr ([], None)"
  using assms unfolding repl_def Let_def by simp

lemma repl_string_literal:
  assumes "ints (split_on CHR '','' s) = Inr membytes" and "pop_zeros membytes \<noteq> []"
    and "\<not> memory_init_file options"
  shows "repl S options gen mem s = Inr (fmt ''memoryInitializer = '%s';'' [gen (pop_zeros membytes)], None)"
proof -
  have "s \<noteq> []"
  proof
    assume "s = []"
    with assms(1) ints_empty_piece have "membytes = [0]" by simp
    with assms(2) show False by (simp add: pop_zeros_def)
  qed
  with assms show ?thesis unfolding repl_def Let_def by simp
qed

lemma memory_initializer_unfold:
  "MEM_INIT_METHOD S > 0 \<Longrightarrow>
   memory_initializer S options debug search gen opt tn fn js =
     (case search js of
        None \<Rightarrow> Inr \<lparr>memfile = Some (tn @ ''.mem''), binary_written = [],
                      text_written = [(fn @ ''.mem.js'', js)], new_final = fn @ ''.mem.js''\<rparr>
      | Some (before, group1, after) \<Rightarrow>
          (case repl S options gen (tn @ ''.mem'') group1 of
             Inl e \<Rightarrow> Inl e
           | Inr (new, written) \<Rightarrow>
               Inr \<lparr>memfile = Some (tn @ ''.mem''),
                    binary_written = (case written of None \<Rightarrow> [] | Some bytes \<Rightarrow> [(tn @ ''.mem'', bytes)]),
                    text_written = [(fn @ ''.mem.js'', before @ new @ after)],
                    new_final = fn @ ''.mem.js''\<rparr>))"
  unfolding memory_initializer_def Let_def re_sub_once
  by (simp split: option.splits sum.splits prod.splits)

lemma memory_initializer_writes:
  assumes "memory_initializer S options debug search gen opt tn fn js = Inr res"
  shows "length (binary_written res) \<le> 1"
    and "(name, bytes) \<in> set (binary_written res) \<Longrightarrow>
         MEM_INIT_METHOD S > 0 \<and> memory_init_file options \<and> name = tn @ ''.mem''
         \<and> bytes \<noteq> [] \<and> last bytes \<noteq> 0
         \<and> (\<exists>before group1 after membytes. search js = Some (before, group1, after)
               \<and> ints (split_on CHR '','' group1) = Inr membytes \<and> bytes = pop_zeros membytes)"
proof -
  show "length (binary_written res) \<le> 1"
  proof (cases "MEM_INIT_METHOD S > 0")
    case True
    from assms show ?thesis
      unfolding memory_initializer_unfold [OF True]
      by (auto split: option.splits sum.splits prod.splits)
  next
    case False
    with assms show ?thesis
      unfolding memory_initializer_def by (auto split: if_splits option.splits)
  qed
  assume w: "(name, bytes) \<in> set (binary_written res)"
  have pos: "MEM_INIT_METHOD S > 0"
  proof (rule ccontr)
    assume "\<not> MEM_INIT_METHOD S > 0"
    with assms have "binary_written res = []"
      unfolding memory_initializer_def by (auto split: if_splits option.splits)
    with w show False by simp
  qed
  from assms w obtain before group1 after new where s: "search js = Some (before, group1, after)"
    and r: "repl S options gen (tn @ ''.mem'') group1 = Inr (new, Some bytes)" and n: "name = tn @ ''.mem''"
    unfolding memory_initializer_unfold [OF pos]
    by (auto split: option.splits sum.splits prod.splits)
  from repl_written [OF r] pos s n
  show "MEM_INIT_METHOD S > 0 \<and> memory_init_file options \<and> name = tn @ ''.mem''
         \<and> bytes \<noteq> [] \<and> last bytes \<noteq> 0
         \<and> (\<exists>before group1 after membytes. search js = Some (before, group1, after)
               \<and> ints (split_on CHR '','' group1) = Inr membytes \<and> bytes = pop_zeros membytes)"
    by blast
qed

text \<open>
  C8, as the code has it. The memory file is written at most once, and only when
  \<open>MEM_INIT_METHOD\<close> is positive and the option \<open>memory_init_file\<close> is set; its bytes are the
  initializer list with the zeros at its end removed, and there is at least one. When nothing
  is left of the list after the zeros are removed, no memory file is written and the
  initializer is replaced by the empty text. When the option is off and something is left, no
  memory file is written and the initializer becomes the string literal.
\<close>

theorem memory_file_trimmed_and_written_once:
  "(memory_initializer S options debug search gen opt tn fn js = Inr res \<longrightarrow>
      length (binary_written res) \<le> 1
      \<and> ((name, bytes) \<in> set (binary_written res) \<longrightarrow>
           MEM_INIT_METHOD S > 0 \<and> memory_init_file options \<and> name = tn @ ''.mem''
           \<and> bytes \<noteq> [] \<and> last bytes \<noteq> 0
           \<and> (\<exists>before group1 after membytes. search js = Some (before, group1, after)
                 \<and> ints (split_on CHR '','' group1) = Inr membytes \<and> bytes = pop_zeros membytes)))
   \<and> (MEM_INIT_METHOD S > 0 \<and> search js = Some (pre, listed, post)
        \<and> ints (split_on CHR '','' listed) = Inr membytes \<and> pop_zeros membytes = [] \<longrightarrow>
        memory_initializer S options debug search gen opt tn fn js
        = Inr \<lparr>memfile = Some (tn @ ''.mem''), binary_written = [],
               text_written = [(fn @ ''.mem.js'', pre @ post)], new_final = fn @ ''.mem.js''\<rparr>)
   \<and> (MEM_INIT_METHOD S > 0 \<and> search js = Some (pre, listed, post)
        \<and> ints (split_on CHR '','' listed) = Inr membytes \<and> pop_zeros membytes \<noteq> []
        \<and> \<not> memory_init_file options \<longrightarrow>
        memory_initializer S options debug search gen opt tn fn js
        = Inr \<lparr>memfile = Some (tn @ ''.mem''), binary_written = [],
               text_written = [(fn @ ''.mem.js'',
                                pre @ fmt ''memoryInitializer = '%s';'' [gen (pop_zeros membytes)] @ post)],
               new_final = fn @ ''.mem.js''\<rparr>)"
proof -
  have a: "memory_initializer S options debug search gen opt tn fn js
        = Inr \<lparr>memfile = Some (tn @ ''.mem''), binary_written = [],
               text_written = [(fn @ ''.mem.js'', pre @ post)], new_final = fn @ ''.mem.js''\<rparr>"
    if "MEM_INIT_METHOD S > 0" "search js = Some (pre, listed, post)"
      "ints (split_on CHR '','' listed) = Inr membytes" "pop_zeros membytes = []"
    unfolding memory_initializer_unfold [OF that(1)]
    using that(2) repl_nothing_left [OF that(3,4), of S options gen "tn @ ''.mem''"] by simp
  have b: "memory_initializer S options debug search gen opt tn fn js
        = Inr \<lparr>memfile = Some (tn @ ''.mem''), binary_written = [],
               text_written = [(fn @ ''.mem.js'',
                                pre @ fmt ''memoryInitializer = '%s';'' [gen (pop_zeros membytes)] @ post)],
               new_final = fn @ ''.mem.js''\<rparr>"
    if "MEM_INIT_METHOD S > 0" "search js = Some (pre, listed, post)"
      "ints (split_on CHR '','' listed) = Inr membytes" "pop_zeros membytes \<noteq> []"
      "\<not> memory_init_file options"
    unfolding memory_initializer_unfold [OF that(1)]
    using that(2) repl_string_literal [OF that(3,4,5), of S gen "tn @ ''.mem''"]
    by (simp del: fmt.simps)
  have c: "length (binary_written res) \<le> 1"
    if "memory_initializer S options debug search gen opt tn fn js = Inr res"
    using that by (rule memory_initializer_writes(1))
  have d: "MEM_INIT_METHOD S > 0 \<and> memory_init_file options \<and> name = tn @ ''.mem''
           \<and> bytes \<noteq> [] \<and> last bytes \<noteq> 0
           \<and> (\<exists>before group1 after membytes. search js = Some (before, group1, after)
                 \<and> ints (split_on CHR '','' group1) = Inr membytes \<and> bytes = pop_zeros membytes)"
    if "memory_initializer S options debug search gen opt tn fn js = Inr res"
      and "(name, bytes) \<in> set (binary_written res)"
    using that by (rule memory_initializer_writes(2))
  from a b c d show ?thesis by blast
qed

theorem memory_file_trimmed_and_written_once_witness:
  "(\<exists>res. memory_initializer (example_settings\<lparr>MEM_INIT_METHOD := 1\<rparr>) example_options 0
             (example_search ''1,2,0,0'') example_string_initializer (\<lambda>t. None)
             ''a.out.js'' ''/tmp/a.out.js'' (example_script ''1,2,0,0'') = Inr res
          \<and> binary_written res = [(''a.out.js.mem'', [1, 2])]
          \<and> length (binary_written res) \<le> 1
          \<and> pop_zeros [1, 2, 0, 0] = [1, 2])
   \<and> ints (split_on CHR '','' ''0,0,0'') = Inr [0, 0, 0] \<and> pop_zeros [0, 0, 0] = []
   \<and> memory_initializer (example_settings\<lparr>MEM_INIT_METHOD := 1\<rparr>) example_options 0
         (example_search ''0,0,0'') example_string_initializer (\<lambda>t. None)
         ''a.out.js'' ''/tmp/a.out.js'' (example_script ''0,0,0'')
       = Inr \<lparr>memfile = Some ''a.out.js.mem'', binary_written = [],
              text_written = [(''/tmp/a.out.js.mem.js'', ''var STATICTOP = 8;  run();'')],
              new_final = ''/tmp/a.out.js.mem.js''\<rparr>
   \<and> memory_initializer (example_settings\<lparr>MEM_INIT_METHOD := 2\<rparr>)
         (example_options\<lparr>memory_init_file := False\<rparr>) 0
         (example_search ''65,66,0'') example_string_initializer (\<lambda>t. None)
         ''a.out.js'' ''/tmp/a.out.js'' (example_script ''65,66,0'')
       = Inr \<lparr>memfile = Some ''a.out.js.mem'', binary_written = [],
              text_written = [(''/tmp/a.out.js.mem.js'',
                               ''var STATICTOP = 8; '' @ fmt ''memoryInitializer = '%s';'' [''AB''] @ '' run();'')],
              new_final = ''/tmp/a.out.js.mem.js''\<rparr>"
proof -
  let ?S = "example_settings\<lparr>MEM_INIT_METHOD := 1\<rparr>"
  let ?run = "\<lambda>S options l. memory_initializer S options 0 (example_search l) example_string_initializer
                (\<lambda>t. None) ''a.out.js'' ''/tmp/a.out.js'' (example_script l)"
  let ?res = "\<lparr>memfile = Some ''a.out.js.mem'', binary_written = [(''a.out.js.mem'', [1, 2])],
               text_written = [(''/tmp/a.out.js.mem.js'',
                  ''var STATICTOP = 8; '' @ fmt ''memoryInitializer = %s%s%s;'' [[CHR 0x22], ''a.out.js.mem'', [CHR 0x22]] @ '' run();'')],
               new_final = ''/tmp/a.out.js.mem.js''\<rparr>"
  have r1: "?run ?S example_options ''1,2,0,0'' = Inr ?res" by code_simp
  have w1: "(''a.out.js.mem'', [1, 2]) \<in> set (binary_written ?res)" by simp
  have pos1: "MEM_INIT_METHOD ?S > 0" by code_simp
  have pos2: "MEM_INIT_METHOD (example_settings\<lparr>MEM_INIT_METHOD := 2\<rparr>) > 0" by code_simp
  have s0: "example_search ''0,0,0'' (example_script ''0,0,0'') = Some (''var STATICTOP = 8; '', ''0,0,0'', '' run();'')"
    by (simp add: example_search_def)
  have s2: "example_search ''65,66,0'' (example_script ''65,66,0'') = Some (''var STATICTOP = 8; '', ''65,66,0'', '' run();'')"
    by (simp add: example_search_def)
  have i0: "ints (split_on CHR '','' ''0,0,0'') = Inr [0, 0, 0]" by code_simp
  have i2: "ints (split_on CHR '','' ''65,66,0'') = Inr [65, 66, 0]" by code_simp
  have z0: "pop_zeros [0, 0, 0] = []" by code_simp
  have z1: "pop_zeros [1, 2, 0, 0] = [1, 2]" by code_simp
  have z2: "pop_zeros [65, 66, 0] = [65, 66]" by code_simp
  have off: "\<not> memory_init_file (example_options\<lparr>memory_init_file := False\<rparr>)" by simp
  have g: "example_string_initializer [65, 66] = ''AB''" by code_simp
  note a = memory_file_trimmed_and_written_once [where S = ?S and options = example_options and debug = 0
      and search = "example_search ''1,2,0,0''" and gen = example_string_initializer and opt = "\<lambda>t. None"
      and tn = "''a.out.js''" and fn = "''/tmp/a.out.js''" and js = "example_script ''1,2,0,0''"
      and res = ?res and name = "''a.out.js.mem''" and bytes = "[1, 2]"]
  note b = memory_file_trimmed_and_written_once [where S = ?S and options = example_options and debug = 0
      and search = "example_search ''0,0,0''" and gen = example_string_initializer and opt = "\<lambda>t. None"
      and tn = "''a.out.js''" and fn = "''/tmp/a.out.js''" and js = "example_script ''0,0,0''"
      and pre = "''var STATICTOP = 8; ''" and listed = "''0,0,0''" and post = "'' run();''"
      and membytes = "[0, 0, 0]"]
  note c = memory_file_trimmed_and_written_once [where S = "example_settings\<lparr>MEM_INIT_METHOD := 2\<rparr>"
      and options = "example_options\<lparr>memory_init_file := False\<rparr>" and debug = 0
      and search = "example_search ''65,66,0''" and gen = example_string_initializer and opt = "\<lambda>t. None"
      and tn = "''a.out.js''" and fn = "''/tmp/a.out.js''" and js = "example_script ''65,66,0''"
      and pre = "''var STATICTOP = 8; ''" and listed = "''65,66,0''" and post = "'' run();''"
      and membytes = "[65, 66, 0]"]
  from a r1 w1 have c1: "length (binary_written ?res) \<le> 1" by blast
  from b pos1 s0 i0 z0 have c2: "?run ?S example_options ''0,0,0''
       = Inr \<lparr>memfile = Some (''a.out.js'' @ ''.mem''), binary_written = [],
              text_written = [(''/tmp/a.out.js'' @ ''.mem.js'', ''var STATICTOP = 8; '' @ '' run();'')],
              new_final = ''/tmp/a.out.js'' @ ''.mem.js''\<rparr>" by blast
  from c pos2 s2 i2 off have c3: "?run (example_settings\<lparr>MEM_INIT_METHOD := 2\<rparr>)
         (example_options\<lparr>memory_init_file := False\<rparr>) ''65,66,0''
       = Inr \<lparr>memfile = Some (''a.out.js'' @ ''.mem''), binary_written = [],
              text_written = [(''/tmp/a.out.js'' @ ''.mem.js'',
                 ''var STATICTOP = 8; '' @ fmt ''memoryInitializer = '%s';'' [example_string_initializer (pop_zeros [65, 66, 0])] @ '' run();'')],
              new_final = ''/tmp/a.out.js'' @ ''.mem.js''\<rparr>"
    unfolding z2 by (simp only: list.distinct not_False_eq_True simp_thms)
  have e1: "\<exists>res. ?run ?S example_options ''1,2,0,0'' = Inr res
          \<and> binary_written res = [(''a.out.js.mem'', [1, 2])]
          \<and> length (binary_written res) \<le> 1 \<and> pop_zeros [1, 2, 0, 0] = [1, 2]"
    using r1 c1 z1 by (intro exI [of _ ?res]) simp
  from e1 i0 z0 c2 c3 show ?thesis
    unfolding z2 g by (simp del: fmt.simps)
qed

text \<open>
  C8, as the claim states it, fails in its last part: with a memory file wanted and an
  initializer of zeros only, no memory file is written and the script gets no initializer at
  all, not the string literal.
\<close>

theorem memory_initializer_counterexample:
  "memory_initializer (example_settings\<lparr>MEM_INIT_METHOD := 1\<rparr>) example_options 0
     (example_search ''0,0,0'') example_string_initializer (\<lambda>t. None)
     ''a.out.js'' ''/tmp/a.out.js'' (example_script ''0,0,0'')
   = Inr \<lparr>memfile = Some ''a.out.js.mem'', binary_written = [],
          text_written = [(''/tmp/a.out.js.mem.js'', ''var STATICTOP = 8;  run();'')],
          new_final = ''/tmp/a.out.js.mem.js''\<rparr>
   \<and> \<not> contains ''var STATICTOP = 8;  run();'' ''memoryInitializer''"
  by code_simp


section \<open>Properties of the link step\<close>

lemma linked_module_single: "fs p = Some content \<Longrightarrow> linked_module fs [p] = Some content"
  by (simp add: linked_module_def)

lemma single_unit_compiled:
  assumes "\<not> LEAVE_INPUTS_RAW E" and "input_files = [(i, input_file)]"
    and "temp_files = (j, temp_file) # more_temp" and "extra_files_to_link = []"
    and "\<not> is_ar E temp_file" and "files w temp_file = Some content"
    and "temp_file = input_file \<longrightarrow> temp_file \<noteq> in_temp E (target_basename @ ''.bc'')"
  shows "\<exists>w'. link_step E S input_files temp_files extra_files_to_link linker_inputs target_basename w = Inr w'
           \<and> link_calls w' = link_calls w
           \<and> final_file w' = Some (Path (in_temp E (target_basename @ ''.bc'')))
           \<and> files w' (in_temp E (target_basename @ ''.bc'')) = Some content
           \<and> files w' (in_temp E (target_basename @ ''.bc'')) = linked_module (files w) [temp_file]
           \<and> (temp_file = input_file \<longrightarrow> files w' temp_file = Some content)
           \<and> (temp_file \<noteq> input_file \<and> temp_file \<noteq> in_temp E (target_basename @ ''.bc'') \<longrightarrow>
                files w' temp_file = None)"
proof -
  have m: "must_link E input_files temp_files extra_files_to_link = Inr False"
    using assms(1-5) by (simp add: must_link_def)
  show ?thesis
  proof (cases "temp_file = input_file")
    case True
    with assms(6,7) have "shutil_copyfile temp_file (in_temp E (target_basename @ ''.bc'')) (files w)
        = Inr ((files w)(in_temp E (target_basename @ ''.bc'') \<mapsto> content))"
      by (simp add: shutil_copyfile_def)
    with True m assms(1,2,3,6,7) show ?thesis
      by (simp add: link_step_def Let_def linked_module_single)
  next
    case False
    with assms(6) have "shutil_move temp_file (in_temp E (target_basename @ ''.bc'')) (files w)
        = Inr (if temp_file = in_temp E (target_basename @ ''.bc'') then files w
               else ((files w)(temp_file := None))(in_temp E (target_basename @ ''.bc'') \<mapsto> content))"
      by (simp add: shutil_move_def)
    with False m assms(1,2,3,6) show ?thesis
      by (auto simp: link_step_def Let_def linked_module_single)
  qed
qed

lemma single_unit_raw:
  assumes "LEAVE_INPUTS_RAW E" and "input_files = [(i, input_file)]" and "extra_files_to_link = []"
    and "files w input_file = Some content" and "input_file \<noteq> in_temp E input_file"
  shows "\<exists>w'. link_step E S input_files temp_files extra_files_to_link linker_inputs target_basename w = Inr w'
           \<and> link_calls w' = link_calls w
           \<and> final_file w' = Some (Path (in_temp E input_file))
           \<and> files w' (in_temp E input_file) = Some content
           \<and> files w' (in_temp E input_file) = linked_module (files w) [input_file]
           \<and> files w' input_file = Some content"
proof -
  have m: "must_link E input_files temp_files extra_files_to_link = Inr False"
    using assms(1-3) by (simp add: must_link_def)
  from assms(4,5) have "shutil_copyfile input_file (in_temp E input_file) (files w)
        = Inr ((files w)(in_temp E input_file \<mapsto> content))"
    by (simp add: shutil_copyfile_def)
  with m assms show ?thesis
    by (simp add: link_step_def Let_def linked_module_single)
qed

text \<open>
  C9. With one input file, no extra file to link, and a compiled unit that is there and is not
  an archive, the link step calls no linker: it makes \<open>final\<close> the file
  \<open>target_basename.bc\<close> of the temporary directory, with the content of the unit's object,
  which is what linking this one object gives; the object is renamed when it is a temporary
  file of its own and copied when it is the input file itself. When the inputs are left raw
  the input file is copied in the same way.
\<close>

theorem single_unit_is_copied_not_linked:
  "(\<not> LEAVE_INPUTS_RAW E \<and> input_files = [(i, input_file)]
      \<and> temp_files = (j, temp_file) # more_temp \<and> extra_files_to_link = []
      \<and> \<not> is_ar E temp_file \<and> files w temp_file = Some content
      \<and> (temp_file = input_file \<longrightarrow> temp_file \<noteq> in_temp E (target_basename @ ''.bc'')) \<longrightarrow>
      (\<exists>w'. link_step E S input_files temp_files extra_files_to_link linker_inputs target_basename w = Inr w'
           \<and> link_calls w' = link_calls w
           \<and> final_file w' = Some (Path (in_temp E (target_basename @ ''.bc'')))
           \<and> files w' (in_temp E (target_basename @ ''.bc'')) = Some content
           \<and> files w' (in_temp E (target_basename @ ''.bc'')) = linked_module (files w) [temp_file]
           \<and> (temp_file = input_file \<longrightarrow> files w' temp_file = Some content)
           \<and> (temp_file \<noteq> input_file \<and> temp_file \<noteq> in_temp E (target_basename @ ''.bc'') \<longrightarrow>
                files w' temp_file = None)))
   \<and> (LEAVE_INPUTS_RAW E \<and> input_files = [(i, input_file)] \<and> extra_files_to_link = []
        \<and> files w input_file = Some content \<and> input_file \<noteq> in_temp E input_file \<longrightarrow>
        (\<exists>w'. link_step E S input_files temp_files extra_files_to_link linker_inputs target_basename w = Inr w'
           \<and> link_calls w' = link_calls w
           \<and> final_file w' = Some (Path (in_temp E input_file))
           \<and> files w' (in_temp E input_file) = Some content
           \<and> files w' (in_temp E input_file) = linked_module (files w) [input_file]
           \<and> files w' input_file = Some content))"
  using single_unit_compiled [of E input_files i input_file temp_files j temp_file more_temp
      extra_files_to_link w content target_basename S linker_inputs]
    single_unit_raw [of E input_files i input_file extra_files_to_link w content S temp_files
      linker_inputs target_basename]
  by blast

theorem single_unit_is_copied_not_linked_witness:
  "\<not> LEAVE_INPUTS_RAW example_link_env
   \<and> \<not> is_ar example_link_env ''/tmp/hello_0.o''
   \<and> files example_link_world ''/tmp/hello_0.o'' = Some ''BC main''
   \<and> (\<exists>w'. link_step example_link_env example_settings [(0::nat, ''hello.c'')]
               [(0, ''/tmp/hello_0.o'')] [] [''/tmp/hello_0.o'']
               ''a.out'' example_link_world = Inr w'
          \<and> link_calls w' = []
          \<and> final_file w' = Some (Path ''/tmp/a.out.bc'')
          \<and> files w' ''/tmp/a.out.bc'' = Some ''BC main''
          \<and> files w' ''/tmp/hello_0.o'' = None)"
proof -
  have f: "in_temp example_link_env (''a.out'' @ ''.bc'') = ''/tmp/a.out.bc''"
    by code_simp
  have h1: "\<not> LEAVE_INPUTS_RAW example_link_env" by (simp add: example_link_env_def)
  have h2: "\<not> is_ar example_link_env ''/tmp/hello_0.o''" by code_simp
  have h3: "files example_link_world ''/tmp/hello_0.o'' = Some ''BC main''"
    by (simp add: example_link_world_def)
  have h6: "link_calls example_link_world = []" by (simp add: example_link_world_def)
  from h1 h2 h3 h6 show ?thesis
    using single_unit_is_copied_not_linked [where E = example_link_env
      and input_files = "[(0::nat, ''hello.c'')]"
      and i = 0 and input_file = "''hello.c''" and temp_files = "[(0, ''/tmp/hello_0.o'')]" and j = 0
      and temp_file = "''/tmp/hello_0.o''"
      and more_temp = "[]" and extra_files_to_link = "[]" and w = example_link_world
      and content = "''BC main''" and target_basename = "''a.out''" and S = example_settings
      and linker_inputs = "[''/tmp/hello_0.o'']", unfolded f]
    by simp (elim exE conjE, rule exI, intro conjI, assumption+)
qed


section \<open>Properties of the precompiled-header mode\<close>

subsection \<open>The ending of a file name\<close>













subsection \<open>A source input stays among the input files\<close>










subsection \<open>The block of the precompiled headers\<close>







end
